theory Spec2Isabelle
  imports Main "HOL-Library.Sublist" "HOL-Library.Char_ord" "HOL-Library.List_Lexorder"
    "HOL-Library.AList"
begin

section \<open>Python values used by the ROS1 tools\<close>

text \<open>
  The module \<^verbatim>\<open>src/rosa/tools/ros1.py\<close> is a set of tool functions over the ROS
  registry, the parameter server and the log directory. Entity names are strings; a
  raised exception is a value carrying the exception's text; a regular expression match
  is a parameter of the model.
\<close>

datatype exn = Raised string

fun exn_text :: "exn \<Rightarrow> string" where
  "exn_text (Raised e) = e"

text \<open>
  \<^verbatim>\<open>regex.match(p, s)\<close> compiles the pattern \<open>p\<close> and then matches it at the start of
  \<open>s\<close>. Compiling a pattern either raises \<^verbatim>\<open>regex.error\<close> or gives the set of subjects
  the pattern matches; whether it raises depends on the pattern only. The third-party
  matcher is a parameter of every function that calls it. A match object is always true
  and \<^verbatim>\<open>None\<close> is false, so the result of a match is read as a truth value.
\<close>

type_synonym matcher = "string \<Rightarrow> exn + (string \<Rightarrow> bool)"

definition regex_match :: "matcher \<Rightarrow> string \<Rightarrow> string \<Rightarrow> exn + bool" where
  "regex_match rm p s = (case rm p of Inl e \<Rightarrow> Inl e | Inr accepts \<Rightarrow> Inr (accepts s))"

text \<open>
  \<^verbatim>\<open>list(filter(f, xs))\<close> where \<open>f\<close> may raise: the elements are tested in order and the
  first exception ends the call; on the empty list \<open>f\<close> is never called.
\<close>

fun py_filter :: "('a \<Rightarrow> exn + bool) \<Rightarrow> 'a list \<Rightarrow> exn + 'a list" where
  "py_filter f [] = Inr []"
| "py_filter f (x # xs) =
     (case f x of
        Inl e \<Rightarrow> Inl e
      | Inr keep \<Rightarrow>
          (case py_filter f xs of
             Inl e \<Rightarrow> Inl e
           | Inr ys \<Rightarrow> Inr (if keep then x # ys else ys)))"

text \<open>
  \<^verbatim>\<open>any(f(x) for x in xs)\<close>: the generator is consumed up to the first true value, and an
  exception raised before that ends the call.
\<close>

fun py_any :: "('a \<Rightarrow> exn + bool) \<Rightarrow> 'a list \<Rightarrow> exn + bool" where
  "py_any f [] = Inr False"
| "py_any f (x # xs) =
     (case f x of
        Inl e \<Rightarrow> Inl e
      | Inr b \<Rightarrow> if b then Inr True else py_any f xs)"

text \<open>\<^verbatim>\<open>not v\<close> and \<^verbatim>\<open>v or w\<close> for values whose evaluation may raise.\<close>

fun py_not :: "exn + bool \<Rightarrow> exn + bool" where
  "py_not (Inl e) = Inl e"
| "py_not (Inr b) = Inr (\<not> b)"

fun py_or :: "exn + bool \<Rightarrow> exn + bool \<Rightarrow> exn + bool" where
  "py_or (Inl e) w = Inl e"
| "py_or (Inr b) w = (if b then Inr True else w)"

text \<open>
  A loop that appends to a list what its body produces for each element, in order; the
  first exception raised by the body ends the loop.
\<close>

fun py_for :: "('a \<Rightarrow> exn + 'b list) \<Rightarrow> 'a list \<Rightarrow> exn + 'b list" where
  "py_for body [] = Inr []"
| "py_for body (x # xs) =
     (case body x of
        Inl e \<Rightarrow> Inl e
      | Inr ys \<Rightarrow> (case py_for body xs of Inl e \<Rightarrow> Inl e | Inr zs \<Rightarrow> Inr (ys @ zs)))"

text \<open>Truthiness of an \<^verbatim>\<open>Optional[str]\<close>: \<^verbatim>\<open>None\<close> and the empty string are false.\<close>

fun truthy_str :: "string option \<Rightarrow> bool" where
  "truthy_str None = False"
| "truthy_str (Some s) = (s \<noteq> [])"

text \<open>An \<^verbatim>\<open>Optional[str]\<close> interpolated into an f-string.\<close>

fun py_str :: "string option \<Rightarrow> string" where
  "py_str None = ''None''"
| "py_str (Some s) = s"

text \<open>\<^verbatim>\<open>x.startswith(p)\<close>, \<^verbatim>\<open>x.endswith(p)\<close> and \<^verbatim>\<open>p in x\<close> on strings.\<close>

definition startswith :: "string \<Rightarrow> string \<Rightarrow> bool" where
  "startswith x p = prefix p x"

definition endswith :: "string \<Rightarrow> string \<Rightarrow> bool" where
  "endswith x p = suffix p x"

fun str_contains :: "string \<Rightarrow> string \<Rightarrow> bool" where
  "str_contains p [] = (p = [])"
| "str_contains p (c # cs) = (prefix p (c # cs) \<or> str_contains p cs)"

section \<open>A concrete matcher for closed instances\<close>

text \<open>
  For evaluating the tools at concrete inputs, \<open>lit_regex\<close> is the behaviour of
  \<^verbatim>\<open>regex.match\<close> on the patterns built from ordinary characters, \<open>.\<close> (any character
  but a newline), a postfix \<open>*\<close> and an opening parenthesis that is never closed. A
  pattern with such a parenthesis does not compile (the text of the error is not
  modelled); any other pattern of this fragment compiles, and its match is anchored at
  the start of the subject and may end anywhere.
\<close>

fun char_ok :: "char \<Rightarrow> char \<Rightarrow> bool" where
  "char_ok c x = (if c = CHR ''.'' then x \<noteq> CHR 0x0A else c = x)"

fun star_match :: "(string \<Rightarrow> bool) \<Rightarrow> char \<Rightarrow> string \<Rightarrow> bool" where
  "star_match k c [] = k []"
| "star_match k c (x # xs) = (k (x # xs) \<or> (char_ok c x \<and> star_match k c xs))"

fun lit_match :: "string \<Rightarrow> string \<Rightarrow> bool" where
  "lit_match [] s = True"
| "lit_match [c] s = (case s of [] \<Rightarrow> False | x # xs \<Rightarrow> char_ok c x)"
| "lit_match (c # d # r) s =
     (if d = CHR ''*'' then star_match (lit_match r) c s
      else (case s of [] \<Rightarrow> False | x # xs \<Rightarrow> char_ok c x \<and> lit_match (d # r) xs))"

definition lit_regex :: matcher where
  "lit_regex p =
     (if CHR ''('' \<in> set p then Inl (Raised ''missing )'') else Inr (lit_match p))"

section \<open>Entity lister\<close>

text \<open>
  The registry calls of \<open>get_entities\<close>: \<^verbatim>\<open>rostopic.get_topic_list()\<close> returns the
  publisher and the subscriber entries, of which only the first component (the topic
  name) is read; \<^verbatim>\<open>rosnode.get_node_names()\<close> returns the node names. Either call may
  raise.
\<close>

record registry =
  get_topic_list :: "exn + ((string \<times> string) list \<times> (string \<times> string) list)"
  get_node_names :: "exn + string list"

definition fetch_entities :: "registry \<Rightarrow> string \<Rightarrow> exn + string list" where
  "fetch_entities reg type =
     (if type = ''topic'' then
        (case get_topic_list reg of
           Inl e \<Rightarrow> Inl e
         | Inr (pub, sub) \<Rightarrow> Inr (sort (remdups (map fst pub @ map fst sub))))
      else if type = ''node'' then get_node_names reg
      else Inr [])"

definition namespace_stage :: "string option \<Rightarrow> string list \<Rightarrow> string list" where
  "namespace_stage namespace entities =
     (if truthy_str namespace
      then filter (\<lambda>x. startswith x (py_str namespace @ ''/'')) entities
      else entities)"

definition pattern_stage :: "matcher \<Rightarrow> string option \<Rightarrow> string list \<Rightarrow> exn + string list" where
  "pattern_stage rm pattern entities =
     (if truthy_str pattern
      then py_filter (\<lambda>x. regex_match rm (''.*'' @ py_str pattern) x) entities
      else Inr entities)"

definition msg_none_in_system :: "string \<Rightarrow> string" where
  "msg_none_in_system type =
     ''There are currently no '' @ type @ ''s available in the system.''"

definition msg_none_in_namespace :: "string \<Rightarrow> string option \<Rightarrow> string" where
  "msg_none_in_namespace type namespace =
     ''There are currently no '' @ type @ ''s available using the '' @ [CHR 0x27]
       @ py_str namespace @ [CHR 0x27] @ '' namespace.''"

definition msg_none_matching :: "string \<Rightarrow> string" where
  "msg_none_matching type =
     ''There are currently no '' @ type @ ''s available matching the specified pattern.''"

definition substitute_empty ::
  "string \<Rightarrow> string option \<Rightarrow> nat \<Rightarrow> nat \<Rightarrow> nat \<Rightarrow> string list \<Rightarrow> string list" where
  "substitute_empty type namespace n_total in_namespace match_pattern entities =
     (if n_total = 0 then [msg_none_in_system type]
      else if in_namespace = 0 then [msg_none_in_namespace type namespace]
      else if match_pattern = 0 then [msg_none_matching type]
      else entities)"

text \<open>
  The blacklist test shared by the listers: some pattern of the blacklist matches the
  name. The patterns are tried in order up to the first match.
\<close>

definition blacklisted :: "matcher \<Rightarrow> string list \<Rightarrow> string \<Rightarrow> exn + bool" where
  "blacklisted rm blacklist x =
     py_any (\<lambda>pattern. regex_match rm (''.*'' @ pattern) x) blacklist"

definition blacklist_stage ::
  "matcher \<Rightarrow> string list option \<Rightarrow> string list \<Rightarrow> exn + string list" where
  "blacklist_stage rm blacklist entities =
     (case blacklist of
        None \<Rightarrow> Inr entities
      | Some bl \<Rightarrow>
          if bl \<noteq> [] then py_filter (\<lambda>x. py_not (blacklisted rm bl x)) entities
          else Inr entities)"

definition get_entities ::
  "matcher \<Rightarrow> registry \<Rightarrow> string \<Rightarrow> string option \<Rightarrow> string option \<Rightarrow> string list option
     \<Rightarrow> exn + (nat \<times> nat \<times> nat \<times> string list)" where
  "get_entities rm reg type pattern namespace blacklist =
     (case fetch_entities reg type of
        Inl e \<Rightarrow> Inl e
      | Inr entities \<Rightarrow>
          let n_total = length entities;
              entities1 = namespace_stage namespace entities;
              in_namespace = length entities1
          in case pattern_stage rm pattern entities1 of
               Inl e \<Rightarrow> Inl e
             | Inr entities2 \<Rightarrow>
                 let match_pattern = length entities2;
                     entities3 = substitute_empty type namespace n_total in_namespace
                                   match_pattern entities2
                 in case blacklist_stage rm blacklist entities3 of
                      Inl e \<Rightarrow> Inl e
                    | Inr entities4 \<Rightarrow>
                        Inr (n_total, in_namespace, match_pattern, sort entities4))"

section \<open>Replies of the tools\<close>

text \<open>
  A tool returns a dictionary that is either the \<^verbatim>\<open>{"error": ...}\<close> payload or the normal
  payload. A tool as a whole either raises (\<open>Inl\<close>) or returns (\<open>Inr\<close>). The two entity
  tools call \<open>get_entities\<close> inside their handler, so every exception of that call, a
  \<^verbatim>\<open>regex.error\<close> included, becomes the error payload.
\<close>

datatype 'a reply = Error_payload string | Payload 'a

record entity_listing =
  el_namespace :: string
  el_pattern :: string
  el_total :: nat
  el_in_namespace :: nat
  el_match_pattern :: nat
  el_names :: "string list"

definition entity_tool ::
  "string \<Rightarrow> string \<Rightarrow> matcher \<Rightarrow> registry \<Rightarrow> string option \<Rightarrow> string option
     \<Rightarrow> string list option \<Rightarrow> exn + entity_listing reply" where
  "entity_tool type failure rm reg pattern namespace blacklist =
     (case get_entities rm reg type pattern namespace blacklist of
        Inl e \<Rightarrow> Inr (Error_payload (failure @ exn_text e))
      | Inr (n_total, in_namespace, match_pattern, names) \<Rightarrow>
          Inr (Payload \<lparr>
            el_namespace = (if truthy_str namespace then py_str namespace else ''/''),
            el_pattern = (if truthy_str pattern then py_str pattern else ''.*''),
            el_total = n_total,
            el_in_namespace = in_namespace,
            el_match_pattern = match_pattern,
            el_names = names \<rparr>))"

definition rostopic_list ::
  "matcher \<Rightarrow> registry \<Rightarrow> string option \<Rightarrow> string option \<Rightarrow> string list option
     \<Rightarrow> exn + entity_listing reply" where
  "rostopic_list = entity_tool ''topic'' ''Failed to get ROS topics: ''"

definition rosnode_list ::
  "matcher \<Rightarrow> registry \<Rightarrow> string option \<Rightarrow> string option \<Rightarrow> string list option
     \<Rightarrow> exn + entity_listing reply" where
  "rosnode_list = entity_tool ''node'' ''Failed to get ROS nodes: ''"

section \<open>Graph builder\<close>

text \<open>
  \<^verbatim>\<open>getSystemState()\<close> returns, for publishers and for subscribers, a list of
  (topic, nodes) entries (the services are not read). The two dictionaries built from them
  keep insertion order: they are association lists, a new topic is added at the end and a
  known topic has the node appended to its list.
\<close>

type_synonym topic_map = "(string \<times> string list) list"
type_synonym triple = "string \<times> string \<times> string"

definition add_node :: "string option \<Rightarrow> string \<Rightarrow> topic_map \<Rightarrow> string \<Rightarrow> topic_map" where
  "add_node namespace topic m node =
     (if truthy_str namespace \<and> \<not> startswith node (py_str namespace) then m
      else map_default topic [node] (\<lambda>nodes. nodes @ [node]) m)"

definition build_map :: "string option \<Rightarrow> (string \<times> string list) list \<Rightarrow> topic_map" where
  "build_map namespace entries =
     foldl (\<lambda>m (topic, nodes). foldl (add_node namespace topic) m nodes) [] entries"

text \<open>
  The join of the two maps. The topic pattern is matched inside the innermost loop, once
  for every pair of a publisher and a subscriber of a topic present in both maps.
\<close>

definition join_maps ::
  "matcher \<Rightarrow> string option \<Rightarrow> topic_map \<Rightarrow> topic_map \<Rightarrow> exn + triple list" where
  "join_maps rm topic_pattern topic_pub_map topic_sub_map =
     py_for (\<lambda>(topic, pubs).
       case map_of topic_sub_map topic of
         None \<Rightarrow> Inr []
       | Some subs \<Rightarrow>
           py_for (\<lambda>pub.
             py_for (\<lambda>sub.
               case (if truthy_str topic_pattern
                     then py_not (regex_match rm (py_str topic_pattern) topic)
                     else Inr False) of
                 Inl e \<Rightarrow> Inl e
               | Inr skip \<Rightarrow> Inr (if skip then [] else [(pub, topic, sub)])) subs) pubs)
       topic_pub_map"

text \<open>
  The blacklist test of the graph: the generator runs over the words and, for each word,
  over the three entries of the triple.
\<close>

definition triple_blacklisted :: "matcher \<Rightarrow> string list \<Rightarrow> triple \<Rightarrow> exn + bool" where
  "triple_blacklisted rm blacklist x =
     (case x of (pub, topic, sub) \<Rightarrow>
        py_any (\<lambda>(word, entry). regex_match rm (''.*'' @ word @ ''.*'') entry)
          (List.product blacklist [pub, topic, sub]))"

definition graph_blacklist :: "matcher \<Rightarrow> string list \<Rightarrow> triple list \<Rightarrow> exn + triple list" where
  "graph_blacklist rm blacklist graph =
     py_filter (\<lambda>x. py_not (triple_blacklisted rm blacklist x)) graph"

definition graph_node_pattern ::
  "matcher \<Rightarrow> string option \<Rightarrow> triple list \<Rightarrow> exn + triple list" where
  "graph_node_pattern rm node_pattern graph =
     (if truthy_str node_pattern
      then py_filter (\<lambda>(pub, topic, sub).
             py_or (regex_match rm (py_str node_pattern) pub)
                   (regex_match rm (py_str node_pattern) sub)) graph
      else Inr graph)"

definition graph_exclude_self :: "bool \<Rightarrow> triple list \<Rightarrow> triple list" where
  "graph_exclude_self exclude_self_connections graph =
     (if exclude_self_connections then filter (\<lambda>(pub, topic, sub). pub \<noteq> sub) graph
      else graph)"

text \<open>The blacklist the filter iterates: \<^verbatim>\<open>blacklist if blacklist else []\<close>.\<close>

fun blacklist_or_empty :: "string list option \<Rightarrow> string list" where
  "blacklist_or_empty None = []"
| "blacklist_or_empty (Some bl) = bl"

text \<open>
  The list of triples after the join and the three filters. None of this is inside the
  handler of \<open>rosgraph_get\<close>: a \<^verbatim>\<open>regex.error\<close> ends the tool.
\<close>

definition build_graph ::
  "matcher \<Rightarrow> (string \<times> string list) list \<Rightarrow> (string \<times> string list) list \<Rightarrow> string option
     \<Rightarrow> string option \<Rightarrow> string option \<Rightarrow> string list option \<Rightarrow> bool \<Rightarrow> exn + triple list" where
  "build_graph rm publishers subscribers namespace node_pattern topic_pattern blacklist
       exclude_self_connections =
     (case join_maps rm topic_pattern
             (build_map namespace publishers) (build_map namespace subscribers) of
        Inl e \<Rightarrow> Inl e
      | Inr graph0 \<Rightarrow>
          (case graph_blacklist rm (blacklist_or_empty blacklist) graph0 of
             Inl e \<Rightarrow> Inl e
           | Inr graph1 \<Rightarrow>
               (case graph_node_pattern rm node_pattern graph1 of
                  Inl e \<Rightarrow> Inl e
                | Inr graph2 \<Rightarrow> Inr (graph_exclude_self exclude_self_connections graph2))))"

record graph_response =
  graph_convention :: string
  nuance :: string
  node_count :: nat
  topic_count :: nat
  total_connections :: nat
  graph :: "triple list"
  warning :: "string option"

definition oversize_warning :: string where
  "oversize_warning =
     ''The graph is too large to display or render (size > 50. Please make ''
     @ ''some recommendations to the user on how to filter the graph to a more manageable ''
     @ ''size. Do not attempt to render the graph.''"

text \<open>
  The two error payloads of the graph builder. The second one interpolates the printed
  form of the blacklist, which is kept as the list itself.
\<close>

datatype graph_reply =
    Failed_to_get_graph string
  | No_results "string list"
  | Graph graph_response

definition rosgraph_get ::
  "matcher \<Rightarrow> exn + ((string \<times> string list) list \<times> (string \<times> string list) list)
     \<Rightarrow> string option \<Rightarrow> string option \<Rightarrow> string option \<Rightarrow> string list option \<Rightarrow> bool
     \<Rightarrow> exn + graph_reply" where
  "rosgraph_get rm getSystemState namespace node_pattern topic_pattern blacklist
       exclude_self_connections =
     (case getSystemState of
        Inl e \<Rightarrow> Inr (Failed_to_get_graph (''Failed to get ROS graph: '' @ exn_text e))
      | Inr (publishers, subscribers) \<Rightarrow>
          (case build_graph rm publishers subscribers namespace node_pattern topic_pattern
                  blacklist exclude_self_connections of
             Inl e \<Rightarrow> Inl e
           | Inr g \<Rightarrow>
               if g = [] then Inr (No_results (blacklist_or_empty blacklist))
               else Inr (Graph \<lparr>
                 graph_convention =
                   ''Each tuple in the graph is of the form (publisher, topic, subscriber).'',
                 nuance = ''Disconnected nodes are not included in this graph.'',
                 node_count = length (remdups (concat (map (\<lambda>(pub, topic, sub). [pub, sub]) g))),
                 topic_count = length (remdups (map (\<lambda>(pub, topic, sub). topic) g)),
                 total_connections = length g,
                 graph = g,
                 warning = (if length g > 50 then Some oversize_warning else None) \<rparr>)))"

section \<open>Parameter accessors\<close>

text \<open>
  \<open>rosparam_list\<close> has the parameter query and the blacklist filter inside its handler.
\<close>

record param_listing =
  pl_namespace :: string
  pl_total :: nat
  ros_params :: "string list"

definition rosparam_list ::
  "matcher \<Rightarrow> (string \<Rightarrow> exn + string list) \<Rightarrow> string \<Rightarrow> string list option
     \<Rightarrow> exn + param_listing reply" where
  "rosparam_list rm list_params namespace blacklist =
     (case list_params namespace of
        Inl e \<Rightarrow> Inr (Error_payload (''Failed to get ROS parameters: '' @ exn_text e))
      | Inr params \<Rightarrow>
          (case blacklist_stage rm blacklist params of
             Inl e \<Rightarrow> Inr (Error_payload (''Failed to get ROS parameters: '' @ exn_text e))
           | Inr params1 \<Rightarrow>
               Inr (Payload \<lparr> pl_namespace = namespace, pl_total = length params1,
                                 ros_params = params1 \<rparr>)))"

text \<open>
  \<open>rosparam_get\<close> reads the keys one after the other into a dictionary, outside of any
  handler: the first read that raises ends the call.
\<close>

fun rosparam_get_loop ::
  "(string \<Rightarrow> exn + 'v) \<Rightarrow> string list \<Rightarrow> (string \<times> 'v) list \<Rightarrow> exn + (string \<times> 'v) list" where
  "rosparam_get_loop get_param [] values = Inr values"
| "rosparam_get_loop get_param (param # params) values =
     (case get_param param of
        Inl e \<Rightarrow> Inl e
      | Inr p \<Rightarrow> rosparam_get_loop get_param params (AList.update param p values))"

definition rosparam_get :: "(string \<Rightarrow> exn + 'v) \<Rightarrow> string list \<Rightarrow> exn + (string \<times> 'v) list" where
  "rosparam_get get_param params = rosparam_get_loop get_param params []"

text \<open>
  \<^verbatim>\<open>s.replace("//", "/")\<close>: one pass from the left, each occurrence found is replaced and
  the scan goes on after it.
\<close>

fun replace_double_slash :: "string \<Rightarrow> string" where
  "replace_double_slash (a # b # r) =
     (if a = CHR ''/'' \<and> b = CHR ''/'' then CHR ''/'' # replace_double_slash r
      else a # replace_double_slash (b # r))"
| "replace_double_slash s = s"

fun has_double_slash :: "string \<Rightarrow> bool" where
  "has_double_slash (a # b # r) = ((a = CHR ''/'' \<and> b = CHR ''/'') \<or> has_double_slash (b # r))"
| "has_double_slash s = False"

text \<open>The key that \<open>rosparam_set\<close> passes to the parameter server.\<close>

definition rosparam_key :: "string \<Rightarrow> bool \<Rightarrow> string" where
  "rosparam_key param is_rosa_param =
     (if is_rosa_param \<and> \<not> startswith param ''/rosa''
      then replace_double_slash (''/rosa/'' @ param)
      else param)"

definition quoted :: "string \<Rightarrow> string" where
  "quoted s = [CHR 0x27] @ s @ [CHR 0x27]"

text \<open>
  The parameter server is a state \<open>'s\<close> with a write operation that may raise;
  \<open>rosparam_set\<close> returns its string and the state after the write.
\<close>

definition rosparam_set ::
  "(string \<Rightarrow> string \<Rightarrow> 's \<Rightarrow> (exn + unit) \<times> 's) \<Rightarrow> string \<Rightarrow> string \<Rightarrow> bool \<Rightarrow> 's
     \<Rightarrow> (exn + string) \<times> 's" where
  "rosparam_set set_param param value is_rosa_param server =
     (let param1 = rosparam_key param is_rosa_param
      in case set_param param1 value server of
           (Inr u, server1) \<Rightarrow>
             (Inr (''Set parameter '' @ quoted param1 @ '' to '' @ quoted value @ ''.''), server1)
         | (Inl e, server1) \<Rightarrow>
             (Inr (''Failed to set parameter '' @ quoted param1 @ '' to '' @ quoted value
                   @ '': '' @ exn_text e @ ''. Try again!''), server1))"

text \<open>A parameter server that stores every write: a dictionary from keys to values.\<close>

definition store_param :: "string \<Rightarrow> string \<Rightarrow> (string \<times> string) list \<Rightarrow> (exn + unit) \<times> (string \<times> string) list" where
  "store_param key value server = (Inr (), AList.update key value server)"

section \<open>Service lister\<close>

text \<open>
  \<^verbatim>\<open>rosservice.get_service_list(node, namespace, include_nodes)\<close> is called outside of
  any handler, and so are the filters. The result of the query is modelled as the list of
  service names (the shape returned when \<open>include_nodes\<close> is false), which the filters
  then read.
\<close>

definition rosservice_list ::
  "matcher \<Rightarrow> (string option \<Rightarrow> string option \<Rightarrow> bool \<Rightarrow> exn + string list)
     \<Rightarrow> string option \<Rightarrow> string option \<Rightarrow> bool \<Rightarrow> string option \<Rightarrow> bool \<Rightarrow> bool \<Rightarrow> bool
     \<Rightarrow> string option \<Rightarrow> string list option \<Rightarrow> exn + string list" where
  "rosservice_list rm get_service_list node namespace include_nodes regex_pattern
       exclude_logging exclude_rosapi exclude_parameters exclude_pattern blacklist =
     (case get_service_list node namespace include_nodes of
        Inl e \<Rightarrow> Inl e
      | Inr services \<Rightarrow>
          let services1 =
                (if exclude_logging
                 then filter (\<lambda>x. \<not> str_contains ''logger'' x)
                        (filter (\<lambda>x. \<not> startswith x ''/rosout'') services)
                 else services);
              services2 =
                (if exclude_rosapi then filter (\<lambda>x. \<not> startswith x ''/rosapi'') services1
                 else services1);
              services3 =
                (if exclude_parameters then filter (\<lambda>x. \<not> str_contains ''param'' x) services2
                 else services2)
          in case (if truthy_str exclude_pattern
                   then py_filter (\<lambda>x. py_not (regex_match rm (''.*'' @ py_str exclude_pattern) x))
                          services3
                   else Inr services3) of
               Inl e \<Rightarrow> Inl e
             | Inr services4 \<Rightarrow>
                 (case (if truthy_str regex_pattern
                        then py_filter (\<lambda>x. regex_match rm (''.*'' @ py_str regex_pattern) x)
                               services4
                        else Inr services4) of
                    Inl e \<Rightarrow> Inl e
                  | Inr services5 \<Rightarrow> blacklist_stage rm blacklist services5))"

section \<open>Log lister\<close>

text \<open>
  The log directory: \<^verbatim>\<open>rospkg.get_log_dir()\<close>, \<^verbatim>\<open>os.listdir\<close> and
  \<^verbatim>\<open>os.path.getsize\<close>, each of which may raise. Sizes and \<open>min_size\<close> are integers.
\<close>

record log_env =
  get_log_dir :: "exn + string"
  listdir :: "string \<Rightarrow> exn + string list"
  getsize :: "string \<Rightarrow> exn + int"

text \<open>\<^verbatim>\<open>os.path.join(a, b)\<close> for two POSIX path components.\<close>

definition os_path_join :: "string \<Rightarrow> string \<Rightarrow> string" where
  "os_path_join a b =
     (if startswith b ''/'' then b
      else if a = [] \<or> endswith a ''/'' then a @ b
      else a @ ''/'' @ b)"

text \<open>
  The blacklist filter of \<open>roslog_list\<close> has no guard on the blacklist: the generator
  iterates it for every file name, and iterating \<^verbatim>\<open>None\<close> raises a \<^verbatim>\<open>TypeError\<close>. With no
  file name the predicate is never called.
\<close>

definition none_not_iterable :: exn where
  "none_not_iterable = Raised (quoted ''NoneType'' @ '' object is not iterable'')"

definition log_blacklist :: "matcher \<Rightarrow> string list option \<Rightarrow> string list \<Rightarrow> exn + string list" where
  "log_blacklist rm blacklist logs =
     (case blacklist of
        None \<Rightarrow> (if logs = [] then Inr [] else Inl none_not_iterable)
      | Some bl \<Rightarrow> py_filter (\<lambda>x. py_not (blacklisted rm bl x)) logs)"

fun log_sizes_loop ::
  "(string \<Rightarrow> exn + int) \<Rightarrow> string \<Rightarrow> int \<Rightarrow> string list \<Rightarrow> (string \<times> int) list
     \<Rightarrow> exn + (string \<times> int) list" where
  "log_sizes_loop size_of log_dir min_size [] log_sizes = Inr log_sizes"
| "log_sizes_loop size_of log_dir min_size (log # logs) log_sizes =
     (case size_of (os_path_join log_dir log) of
        Inl e \<Rightarrow> Inl e
      | Inr sz \<Rightarrow>
          log_sizes_loop size_of log_dir min_size logs
            (if sz \<ge> min_size then AList.update log sz log_sizes else log_sizes))"

text \<open>
  \<^verbatim>\<open>sorted(items, key=lambda item: item[1], reverse=True)\<close>: a stable sort in which
  entries of equal size keep their order; \<^verbatim>\<open>dict(...)\<close> of the pairs, in order.
\<close>

definition sorted_by_size_desc :: "(string \<times> int) list \<Rightarrow> (string \<times> int) list" where
  "sorted_by_size_desc items = rev (sort_key snd (rev items))"

definition py_dict :: "(string \<times> int) list \<Rightarrow> (string \<times> int) list" where
  "py_dict items = foldl (\<lambda>d (k, v). AList.update k v d) [] items"

record log_listing =
  log_file_directory :: string
  logs_with_size_in_bytes :: "(string \<times> int) list"
  log_notes :: string

definition roslog_list :: "matcher \<Rightarrow> log_env \<Rightarrow> int \<Rightarrow> string list option \<Rightarrow> exn + log_listing" where
  "roslog_list rm env min_size blacklist =
     (case get_log_dir env of
        Inl e \<Rightarrow> Inl e
      | Inr d \<Rightarrow>
          let log_dir = d @ ''/'' in
          case listdir env log_dir of
            Inl e \<Rightarrow> Inl e
          | Inr logs \<Rightarrow>
              (case log_blacklist rm blacklist logs of
                 Inl e \<Rightarrow> Inl e
               | Inr logs1 \<Rightarrow>
                   (case log_sizes_loop (getsize env) log_dir min_size logs1 [] of
                      Inl e \<Rightarrow> Inl e
                    | Inr log_sizes \<Rightarrow>
                        Inr \<lparr> log_file_directory = log_dir,
                              logs_with_size_in_bytes = py_dict (sorted_by_size_desc log_sizes),
                              log_notes = ''Recommend only displaying the top N log files when you present this list to the user.'' \<rparr>)))"

section \<open>Definitions used to state the properties\<close>

text \<open>A pattern compiles when the matcher does not raise on it.\<close>

definition compiles :: "matcher \<Rightarrow> string \<Rightarrow> bool" where
  "compiles rm p = (\<not> isl (rm p))"

text \<open>
  The filter stages of the entity lister applied in a given order, as the specification
  speaks of them: each stage is the filter of \<open>get_entities\<close> of that name, an order is a
  list of stages, and the first stage that raises ends the run.
\<close>

datatype stage = Namespace_filter | Pattern_filter | Blacklist_filter

fun apply_stage ::
  "matcher \<Rightarrow> string option \<Rightarrow> string option \<Rightarrow> string list option \<Rightarrow> stage
     \<Rightarrow> string list \<Rightarrow> exn + string list" where
  "apply_stage rm namespace pattern blacklist Namespace_filter entities =
     Inr (namespace_stage namespace entities)"
| "apply_stage rm namespace pattern blacklist Pattern_filter entities =
     pattern_stage rm pattern entities"
| "apply_stage rm namespace pattern blacklist Blacklist_filter entities =
     blacklist_stage rm blacklist entities"

fun apply_stages ::
  "matcher \<Rightarrow> string option \<Rightarrow> string option \<Rightarrow> string list option \<Rightarrow> stage list
     \<Rightarrow> string list \<Rightarrow> exn + string list" where
  "apply_stages rm namespace pattern blacklist [] entities = Inr entities"
| "apply_stages rm namespace pattern blacklist (st # order) entities =
     (case apply_stage rm namespace pattern blacklist st entities of
        Inl e \<Rightarrow> Inl e
      | Inr entities1 \<Rightarrow> apply_stages rm namespace pattern blacklist order entities1)"

text \<open>
  \<open>get_entities\<close> with the namespace stage and the pattern stage exchanged: the pattern
  filter runs first, each counter is still the length of the list after its own stage,
  and the rest of the function is unchanged.
\<close>

definition get_entities_pattern_first ::
  "matcher \<Rightarrow> registry \<Rightarrow> string \<Rightarrow> string option \<Rightarrow> string option \<Rightarrow> string list option
     \<Rightarrow> exn + (nat \<times> nat \<times> nat \<times> string list)" where
  "get_entities_pattern_first rm reg type pattern namespace blacklist =
     (case fetch_entities reg type of
        Inl e \<Rightarrow> Inl e
      | Inr entities \<Rightarrow>
          let n_total = length entities
          in case pattern_stage rm pattern entities of
               Inl e \<Rightarrow> Inl e
             | Inr entities1 \<Rightarrow>
                 let match_pattern = length entities1;
                     entities2 = namespace_stage namespace entities1;
                     in_namespace = length entities2;
                     entities3 = substitute_empty type namespace n_total in_namespace
                                   match_pattern entities2
                 in case blacklist_stage rm blacklist entities3 of
                      Inl e \<Rightarrow> Inl e
                    | Inr entities4 \<Rightarrow>
                        Inr (n_total, in_namespace, match_pattern, sort entities4))"

text \<open>Three slashes in a row.\<close>

fun has_triple_slash :: "string \<Rightarrow> bool" where
  "has_triple_slash (a # b # c # r) =
     ((a = CHR ''/'' \<and> b = CHR ''/'' \<and> c = CHR ''/'') \<or> has_triple_slash (b # c # r))"
| "has_triple_slash s = False"

text \<open>A key without its leading slash, when it has one.\<close>

definition without_leading_slash :: "string \<Rightarrow> string" where
  "without_leading_slash param = (if startswith param ''/'' then tl param else param)"

text \<open>
  The test that each filter stage applies to one entity; a stage whose argument is empty
  or \<^verbatim>\<open>None\<close> keeps every entity.
\<close>

fun stage_test ::
  "matcher \<Rightarrow> string option \<Rightarrow> string option \<Rightarrow> string list option \<Rightarrow> stage \<Rightarrow> string
     \<Rightarrow> exn + bool" where
  "stage_test rm namespace pattern blacklist Namespace_filter x =
     Inr (if truthy_str namespace then startswith x (py_str namespace @ ''/'') else True)"
| "stage_test rm namespace pattern blacklist Pattern_filter x =
     (if truthy_str pattern then regex_match rm (''.*'' @ py_str pattern) x else Inr True)"
| "stage_test rm namespace pattern blacklist Blacklist_filter x =
     (if blacklist_or_empty blacklist \<noteq> []
      then py_not (blacklisted rm (blacklist_or_empty blacklist) x)
      else Inr True)"

section \<open>Filters that may raise\<close>

lemma py_filter_Inr:
  "py_filter f xs = Inr ys \<Longrightarrow> ys = filter (\<lambda>x. f x = Inr True) xs"
  by (induction xs arbitrary: ys) (auto split: sum.splits if_splits)

lemma py_filter_tests_return:
  "py_filter f xs = Inr ys \<Longrightarrow> x \<in> set xs \<Longrightarrow> \<not> isl (f x)"
  by (induction xs arbitrary: ys) (auto split: sum.splits if_splits)

lemma py_filter_returns:
  "(\<And>x. x \<in> set xs \<Longrightarrow> \<not> isl (f x)) \<Longrightarrow> \<exists>ys. py_filter f xs = Inr ys"
proof (induction xs)
  case Nil
  then show ?case by simp
next
  case (Cons x xs)
  then obtain ys where "py_filter f xs = Inr ys" by auto
  moreover from Cons.prems [of x] obtain b where "f x = Inr b" by (cases "f x") auto
  ultimately show ?case by simp
qed

lemma py_filter_kept:
  "(\<And>x. x \<in> set xs \<Longrightarrow> f x = Inr True) \<Longrightarrow> py_filter f xs = Inr xs"
  by (induction xs) auto

lemma py_filter_idem:
  assumes "py_filter f xs = Inr ys"
  shows "py_filter f ys = Inr ys"
proof -
  have "ys = filter (\<lambda>x. f x = Inr True) xs" using assms by (rule py_filter_Inr)
  then have "\<And>x. x \<in> set ys \<Longrightarrow> f x = Inr True" by simp
  then show ?thesis by (rule py_filter_kept)
qed

lemma py_filter_subset: "py_filter f xs = Inr ys \<Longrightarrow> set ys \<subseteq> set xs"
  by (auto dest: py_filter_Inr)

lemma py_filter_length: "py_filter f xs = Inr ys \<Longrightarrow> length ys \<le> length xs"
  by (auto dest: py_filter_Inr)

lemma py_filter_pure: "py_filter (\<lambda>x. Inr (P x)) xs = Inr (filter P xs)"
  by (induction xs) auto

lemma py_any_returns:
  "(\<And>x. x \<in> set xs \<Longrightarrow> \<not> isl (f x)) \<Longrightarrow> \<not> isl (py_any f xs)"
proof (induction xs)
  case Nil
  then show ?case by simp
next
  case (Cons x xs)
  from Cons.prems [of x] obtain b where "f x = Inr b" by (cases "f x") auto
  with Cons show ?case by simp
qed

lemma py_not_True: "py_not v = Inr True \<longleftrightarrow> v = Inr False"
  by (cases v) auto

lemma py_not_isl: "isl (py_not v) = isl v"
  by (cases v) auto

lemma regex_match_compiles: "compiles rm p \<Longrightarrow> \<not> isl (regex_match rm p s)"
  by (cases "rm p") (auto simp: compiles_def regex_match_def)

lemma blacklisted_Nil: "blacklisted rm [] x = Inr False"
  by (simp add: blacklisted_def)

lemma blacklisted_returns:
  "(\<And>p. p \<in> set bl \<Longrightarrow> compiles rm (''.*'' @ p)) \<Longrightarrow> \<not> isl (blacklisted rm bl x)"
  unfolding blacklisted_def by (rule py_any_returns) (rule regex_match_compiles)

section \<open>Entity lister: counters and blacklist\<close>

lemma get_entities_Inr:
  assumes "get_entities rm reg type pattern namespace blacklist = Inr (t, i, m, names)"
  shows "\<exists>entities entities2 entities4.
           fetch_entities reg type = Inr entities
         \<and> pattern_stage rm pattern (namespace_stage namespace entities) = Inr entities2
         \<and> blacklist_stage rm blacklist
               (substitute_empty type namespace t i m entities2) = Inr entities4
         \<and> t = length entities
         \<and> i = length (namespace_stage namespace entities)
         \<and> m = length entities2
         \<and> names = sort entities4"
  using assms by (auto simp: get_entities_def Let_def split: sum.splits)



text \<open>
  Claim C9. The blacklist is applied after the placeholder has been substituted: when
  there are no entities at all, the call without a blacklist returns the placeholder of
  the empty system as its only name, and with a blacklist whose test is true of that
  placeholder text the returned list is empty, with no explanatory string in it.
\<close>

theorem get_entities_placeholder_blacklisted:
  assumes "fetch_entities reg type = Inr []"
    and "blacklisted rm bl (msg_none_in_system type) = Inr True"
  shows "get_entities rm reg type pattern namespace None
           = Inr (0, 0, 0, [msg_none_in_system type])
       \<and> get_entities rm reg type pattern namespace (Some bl) = Inr (0, 0, 0, [])"
proof -
  have ne: "bl \<noteq> []" using assms(2) by (auto simp: blacklisted_Nil)
  have ns: "namespace_stage namespace [] = []" by (simp add: namespace_stage_def)
  have ps: "pattern_stage rm pattern [] = Inr []" by (simp add: pattern_stage_def)
  show ?thesis
    using assms ne by (simp add: get_entities_def ns ps substitute_empty_def blacklist_stage_def)
qed

theorem get_entities_placeholder_blacklisted_witness:
  "fetch_entities \<lparr> get_topic_list = Inr ([], []), get_node_names = Inr [] \<rparr> ''node'' = Inr []
   \<and> blacklisted lit_regex [''system''] (msg_none_in_system ''node'') = Inr True
   \<and> get_entities lit_regex \<lparr> get_topic_list = Inr ([], []), get_node_names = Inr [] \<rparr>
        ''node'' None None None
       = Inr (0, 0, 0, [''There are currently no nodes available in the system.''])
   \<and> get_entities lit_regex \<lparr> get_topic_list = Inr ([], []), get_node_names = Inr [] \<rparr>
        ''node'' None None (Some [''system'']) = Inr (0, 0, 0, [])"
proof -
  have a: "fetch_entities \<lparr> get_topic_list = Inr ([], []), get_node_names = Inr [] \<rparr> ''node'' = Inr []"
    by (simp add: fetch_entities_def)
  have b: "blacklisted lit_regex [''system''] (msg_none_in_system ''node'') = Inr True"
    by (simp add: blacklisted_def msg_none_in_system_def regex_match_def lit_regex_def)
  show ?thesis
    using a b get_entities_placeholder_blacklisted [OF a b, of None None]
    by (simp add: msg_none_in_system_def)
qed

lemma blacklist_stage_returns:
  assumes "\<And>p. p \<in> set (blacklist_or_empty blacklist) \<Longrightarrow> compiles rm (''.*'' @ p)"
  shows "\<exists>kept. blacklist_stage rm blacklist entities = Inr kept"
proof (cases blacklist)
  case None
  then show ?thesis by (simp add: blacklist_stage_def)
next
  case (Some bl)
  have "\<And>x. \<not> isl (py_not (blacklisted rm bl x))"
    using assms Some by (simp add: py_not_isl blacklisted_returns)
  then have "\<exists>kept. py_filter (\<lambda>x. py_not (blacklisted rm bl x)) entities = Inr kept"
    by (intro py_filter_returns)
  then show ?thesis using Some by (simp add: blacklist_stage_def)
qed

lemma blacklist_stage_idem:
  "blacklist_stage rm blacklist entities = Inr kept \<Longrightarrow>
   set kept \<subseteq> set entities \<and> blacklist_stage rm blacklist kept = Inr kept"
  by (auto simp: blacklist_stage_def split: option.splits if_splits
      dest: py_filter_subset py_filter_idem)

lemma triple_blacklisted_returns:
  assumes "\<And>w. w \<in> set words \<Longrightarrow> compiles rm (''.*'' @ w @ ''.*'')"
  shows "\<not> isl (triple_blacklisted rm words x)"
proof -
  obtain pub topic sub where x: "x = (pub, topic, sub)" by (cases x)
  have "\<not> isl (py_any (\<lambda>(word, entry). regex_match rm (''.*'' @ word @ ''.*'') entry)
                 (List.product words [pub, topic, sub]))"
    by (rule py_any_returns) (use assms in \<open>auto simp: regex_match_compiles\<close>)
  then show ?thesis by (simp add: triple_blacklisted_def x)
qed

lemma graph_blacklist_returns:
  assumes "\<And>w. w \<in> set words \<Longrightarrow> compiles rm (''.*'' @ w @ ''.*'')"
  shows "\<exists>kept. graph_blacklist rm words g = Inr kept"
  unfolding graph_blacklist_def
  by (rule py_filter_returns) (use assms in \<open>simp add: py_not_isl triple_blacklisted_returns\<close>)

text \<open>
  Claim C6. Blacklist filtering only removes: every element of the filtered list is an
  element of the input, and filtering the filtered list again with the same blacklist
  returns it unchanged. This holds for the blacklist filter of the entity lister and for
  the one of the graph builder, each of which returns a list whenever every pattern it
  builds from the blacklist compiles.
\<close>

theorem blacklist_subtractive_idempotent:
  "(blacklist_stage rm blacklist entities = Inr kept \<longrightarrow>
      set kept \<subseteq> set entities \<and> blacklist_stage rm blacklist kept = Inr kept)
   \<and> ((\<forall>p \<in> set (blacklist_or_empty blacklist). compiles rm (''.*'' @ p)) \<longrightarrow>
        (\<exists>kept. blacklist_stage rm blacklist entities = Inr kept))
   \<and> (graph_blacklist rm words g = Inr g_kept \<longrightarrow>
        set g_kept \<subseteq> set g \<and> graph_blacklist rm words g_kept = Inr g_kept)
   \<and> ((\<forall>w \<in> set words. compiles rm (''.*'' @ w @ ''.*'')) \<longrightarrow>
        (\<exists>g_kept. graph_blacklist rm words g = Inr g_kept))"
proof -
  have e: "blacklist_stage rm blacklist entities = Inr kept \<longrightarrow>
      set kept \<subseteq> set entities \<and> blacklist_stage rm blacklist kept = Inr kept"
    using blacklist_stage_idem by blast
  have g: "graph_blacklist rm words g = Inr g_kept \<longrightarrow>
        set g_kept \<subseteq> set g \<and> graph_blacklist rm words g_kept = Inr g_kept"
    unfolding graph_blacklist_def using py_filter_subset py_filter_idem by blast
  show ?thesis
    using e g blacklist_stage_returns [of blacklist rm entities]
      graph_blacklist_returns [of words rm g]
    by blast
qed

theorem blacklist_subtractive_idempotent_witness:
  "blacklist_stage lit_regex (Some [''b'']) [''/a/x'', ''/b/y''] = Inr [''/a/x'']
   \<and> set [''/a/x''] \<subseteq> set [''/a/x'', ''/b/y'']
   \<and> blacklist_stage lit_regex (Some [''b'']) [''/a/x''] = Inr [''/a/x'']
   \<and> compiles lit_regex (''.*'' @ ''b'')
   \<and> graph_blacklist lit_regex [''b'']
        [(''/a/n1'', ''/a/t'', ''/a/n2''), (''/b/n'', ''/a/t'', ''/a/n2'')]
       = Inr [(''/a/n1'', ''/a/t'', ''/a/n2'')]
   \<and> set [(''/a/n1'', ''/a/t'', ''/a/n2'')]
        \<subseteq> set [(''/a/n1'', ''/a/t'', ''/a/n2''), (''/b/n'', ''/a/t'', ''/a/n2'')]
   \<and> graph_blacklist lit_regex [''b''] [(''/a/n1'', ''/a/t'', ''/a/n2'')]
       = Inr [(''/a/n1'', ''/a/t'', ''/a/n2'')]
   \<and> compiles lit_regex (''.*'' @ ''b'' @ ''.*'')"
proof -
  have a: "blacklist_stage lit_regex (Some [''b'']) [''/a/x'', ''/b/y''] = Inr [''/a/x'']"
    by (simp add: blacklist_stage_def blacklisted_def regex_match_def lit_regex_def)
  have b: "graph_blacklist lit_regex [''b'']
        [(''/a/n1'', ''/a/t'', ''/a/n2''), (''/b/n'', ''/a/t'', ''/a/n2'')]
       = Inr [(''/a/n1'', ''/a/t'', ''/a/n2'')]"
    by (simp add: graph_blacklist_def triple_blacklisted_def regex_match_def lit_regex_def)
  have c: "compiles lit_regex (''.*'' @ ''b'')" "compiles lit_regex (''.*'' @ ''b'' @ ''.*'')"
    by (simp_all add: compiles_def lit_regex_def)
  show ?thesis
    using a b c
      blacklist_subtractive_idempotent [of lit_regex "Some [''b'']" "[''/a/x'', ''/b/y'']"
        "[''/a/x'']" "[''b'']" "[(''/a/n1'', ''/a/t'', ''/a/n2''), (''/b/n'', ''/a/t'', ''/a/n2'')]"
        "[(''/a/n1'', ''/a/t'', ''/a/n2'')]"]
    by simp
qed

section \<open>Entity lister: order of the filter stages\<close>

lemma py_filter_cong:
  "(\<And>x. x \<in> set xs \<Longrightarrow> f x = g x) \<Longrightarrow> py_filter f xs = py_filter g xs"
  by (induction xs) (auto split: sum.splits)

lemma py_filter_all: "py_filter (\<lambda>x. Inr True) xs = Inr xs"
  by (induction xs) auto

lemma apply_stage_py_filter:
  "apply_stage rm namespace pattern blacklist st xs
     = py_filter (stage_test rm namespace pattern blacklist st) xs"
proof (cases st)
  case Namespace_filter
  have "py_filter (stage_test rm namespace pattern blacklist Namespace_filter) xs
          = py_filter (\<lambda>x. Inr (if truthy_str namespace
                                then startswith x (py_str namespace @ ''/'') else True)) xs"
    by (rule py_filter_cong) simp
  then show ?thesis
    using Namespace_filter by (simp add: namespace_stage_def py_filter_pure)
next
  case Pattern_filter
  have "py_filter (stage_test rm namespace pattern blacklist Pattern_filter) xs
          = py_filter (\<lambda>x. if truthy_str pattern
                            then regex_match rm (''.*'' @ py_str pattern) x else Inr True) xs"
    by (rule py_filter_cong) simp
  then show ?thesis
    using Pattern_filter by (simp add: pattern_stage_def py_filter_all)
next
  case Blacklist_filter
  have "py_filter (stage_test rm namespace pattern blacklist Blacklist_filter) xs
          = py_filter (\<lambda>x. if blacklist_or_empty blacklist \<noteq> []
                            then py_not (blacklisted rm (blacklist_or_empty blacklist) x)
                            else Inr True) xs"
    by (rule py_filter_cong) simp
  then show ?thesis
    using Blacklist_filter
    by (cases blacklist) (simp_all add: blacklist_stage_def py_filter_all)
qed

lemma apply_stages_Inr:
  "apply_stages rm namespace pattern blacklist order xs = Inr ys \<Longrightarrow>
   ys = filter (\<lambda>x. \<forall>st \<in> set order. stage_test rm namespace pattern blacklist st x = Inr True) xs"
proof (induction order arbitrary: xs)
  case Nil
  then show ?case by simp
next
  case (Cons st order)
  from Cons.prems obtain zs where
    zs: "apply_stage rm namespace pattern blacklist st xs = Inr zs"
    and run: "apply_stages rm namespace pattern blacklist order zs = Inr ys"
    by (cases "apply_stage rm namespace pattern blacklist st xs") auto
  have "zs = filter (\<lambda>x. stage_test rm namespace pattern blacklist st x = Inr True) xs"
    using zs by (simp add: apply_stage_py_filter py_filter_Inr)
  moreover have "ys = filter (\<lambda>x. \<forall>s \<in> set order.
                    stage_test rm namespace pattern blacklist s x = Inr True) zs"
    using run by (rule Cons.IH)
  ultimately show ?case by (auto intro: filter_cong)
qed

lemma apply_stages_returns:
  "(\<And>st x. \<not> isl (stage_test rm namespace pattern blacklist st x)) \<Longrightarrow>
   \<exists>ys. apply_stages rm namespace pattern blacklist order xs = Inr ys"
proof (induction order arbitrary: xs)
  case Nil
  then show ?case by simp
next
  case (Cons st order)
  have "\<exists>zs. py_filter (stage_test rm namespace pattern blacklist st) xs = Inr zs"
    by (rule py_filter_returns) (rule Cons.prems)
  then obtain zs where "apply_stage rm namespace pattern blacklist st xs = Inr zs"
    by (auto simp: apply_stage_py_filter)
  moreover obtain ys where "apply_stages rm namespace pattern blacklist order zs = Inr ys"
    using Cons.IH [OF Cons.prems] by blast
  ultimately show ?case by simp
qed

lemma stage_test_returns:
  assumes "truthy_str pattern \<Longrightarrow> compiles rm (''.*'' @ py_str pattern)"
    and "\<And>p. p \<in> set (blacklist_or_empty blacklist) \<Longrightarrow> compiles rm (''.*'' @ p)"
  shows "\<not> isl (stage_test rm namespace pattern blacklist st x)"
proof (cases st)
  case Namespace_filter
  then show ?thesis by simp
next
  case Pattern_filter
  then show ?thesis using assms(1) by (simp add: regex_match_compiles)
next
  case Blacklist_filter
  then show ?thesis using assms(2) by (simp add: py_not_isl blacklisted_returns)
qed

lemma regex_match_returned: "\<not> isl (regex_match rm p s) \<Longrightarrow> compiles rm p"
  by (cases "rm p") (auto simp: compiles_def regex_match_def)

lemma pattern_stage_compiles:
  assumes "pattern_stage rm pattern xs = Inr ys" and "ys \<noteq> []" and "truthy_str pattern"
  shows "compiles rm (''.*'' @ py_str pattern)"
proof -
  from assms have run: "py_filter (\<lambda>x. regex_match rm (''.*'' @ py_str pattern) x) xs = Inr ys"
    by (simp add: pattern_stage_def)
  from py_filter_subset [OF run] assms(2) obtain x where "x \<in> set xs"
    by (cases ys) auto
  from py_filter_tests_return [OF run this] show ?thesis by (rule regex_match_returned)
qed

lemma pattern_stage_length: "pattern_stage rm pattern xs = Inr ys \<Longrightarrow> length ys \<le> length xs"
  by (auto simp: pattern_stage_def split: if_splits dest: py_filter_length)

lemma get_entities_implemented_order:
  assumes "get_entities rm reg type pattern namespace blacklist = Inr (t, i, m, names)"
    and "m \<noteq> 0"
  shows "\<exists>entities ys. fetch_entities reg type = Inr entities
           \<and> apply_stages rm namespace pattern blacklist
                [Namespace_filter, Pattern_filter, Blacklist_filter] entities = Inr ys
           \<and> names = sort ys
           \<and> (truthy_str pattern \<longrightarrow> compiles rm (''.*'' @ py_str pattern))"
proof -
  from get_entities_Inr [OF assms(1)] obtain entities entities2 entities4 where
    f: "fetch_entities reg type = Inr entities"
    and p: "pattern_stage rm pattern (namespace_stage namespace entities) = Inr entities2"
    and b: "blacklist_stage rm blacklist (substitute_empty type namespace t i m entities2)
              = Inr entities4"
    and t: "t = length entities" and i: "i = length (namespace_stage namespace entities)"
    and m: "m = length entities2" and names: "names = sort entities4"
    by blast
  have "length (namespace_stage namespace entities) \<le> length entities"
    by (simp add: namespace_stage_def)
  with pattern_stage_length [OF p] assms(2) t i m have nz: "t \<noteq> 0" "i \<noteq> 0" by auto
  have "substitute_empty type namespace t i m entities2 = entities2"
    using nz assms(2) by (simp add: substitute_empty_def)
  with b have b': "blacklist_stage rm blacklist entities2 = Inr entities4" by simp
  have ne: "entities2 \<noteq> []" using assms(2) m by auto
  have c: "truthy_str pattern \<longrightarrow> compiles rm (''.*'' @ py_str pattern)"
    using pattern_stage_compiles [OF p ne] by blast
  show ?thesis using f p b' names c by simp
qed

text \<open>
  Claim C2, as the code has it. When no stage count is zero (\<open>match_pattern\<close> is not 0,
  so no placeholder is substituted), the list returned by \<open>get_entities\<close> is the sorted
  list of the entities that pass the namespace, pattern and blacklist filters in the
  implemented order, and every order of the three filters that returns gives the same
  list; every order returns when the patterns built from the blacklist compile.
\<close>

theorem get_entities_filters_commute:
  assumes "get_entities rm reg type pattern namespace blacklist = Inr (t, i, m, names)"
    and "m \<noteq> 0"
    and "set order = {Namespace_filter, Pattern_filter, Blacklist_filter}"
  shows "\<exists>entities. fetch_entities reg type = Inr entities
         \<and> (\<exists>ys. apply_stages rm namespace pattern blacklist
                    [Namespace_filter, Pattern_filter, Blacklist_filter] entities = Inr ys
                \<and> names = sort ys)
         \<and> (\<forall>ys. apply_stages rm namespace pattern blacklist order entities = Inr ys
                \<longrightarrow> names = sort ys)
         \<and> ((\<forall>p \<in> set (blacklist_or_empty blacklist). compiles rm (''.*'' @ p)) \<longrightarrow>
              (\<exists>ys. apply_stages rm namespace pattern blacklist order entities = Inr ys))"
proof -
  from get_entities_implemented_order [OF assms(1) assms(2)] obtain entities ys0 where
    f: "fetch_entities reg type = Inr entities"
    and impl: "apply_stages rm namespace pattern blacklist
                [Namespace_filter, Pattern_filter, Blacklist_filter] entities = Inr ys0"
    and names: "names = sort ys0"
    and c: "truthy_str pattern \<longrightarrow> compiles rm (''.*'' @ py_str pattern)"
    by blast
  have same: "set order = set [Namespace_filter, Pattern_filter, Blacklist_filter]"
    using assms(3) by simp
  have any_order: "names = sort ys"
    if "apply_stages rm namespace pattern blacklist order entities = Inr ys" for ys
  proof -
    have "ys = filter (\<lambda>x. \<forall>st \<in> set order.
                 stage_test rm namespace pattern blacklist st x = Inr True) entities"
      using that by (rule apply_stages_Inr)
    moreover have "ys0 = filter (\<lambda>x. \<forall>st \<in> set [Namespace_filter, Pattern_filter, Blacklist_filter].
                 stage_test rm namespace pattern blacklist st x = Inr True) entities"
      using impl by (rule apply_stages_Inr)
    ultimately have "ys = ys0" unfolding same by simp
    with names show ?thesis by simp
  qed
  have returns: "\<exists>ys. apply_stages rm namespace pattern blacklist order entities = Inr ys"
    if "\<forall>p \<in> set (blacklist_or_empty blacklist). compiles rm (''.*'' @ p)"
  proof (rule apply_stages_returns)
    fix st x
    show "\<not> isl (stage_test rm namespace pattern blacklist st x)"
      using c that by (intro stage_test_returns) auto
  qed
  show ?thesis using f impl names any_order returns by blast
qed

theorem get_entities_filters_commute_witness:
  "get_entities lit_regex \<lparr> get_topic_list = Inr ([], []), get_node_names = Inr [''/a/x'', ''/b/y'', ''/a/y''] \<rparr>
      ''node'' (Some ''y'') (Some ''/a'') (Some [''b'']) = Inr (3, 2, 1, [''/a/y''])
   \<and> (1::nat) \<noteq> 0
   \<and> set [Blacklist_filter, Pattern_filter, Namespace_filter] = {Namespace_filter, Pattern_filter, Blacklist_filter}
   \<and> fetch_entities \<lparr> get_topic_list = Inr ([], []), get_node_names = Inr [''/a/x'', ''/b/y'', ''/a/y''] \<rparr> ''node''
       = Inr [''/a/x'', ''/b/y'', ''/a/y'']
   \<and> compiles lit_regex (''.*'' @ ''b'')
   \<and> apply_stages lit_regex (Some ''/a'') (Some ''y'') (Some [''b''])
        [Blacklist_filter, Pattern_filter, Namespace_filter] [''/a/x'', ''/b/y'', ''/a/y'']
       = Inr [''/a/y'']
   \<and> [''/a/y''] = sort [''/a/y'']"
proof -
  have a: "get_entities lit_regex \<lparr> get_topic_list = Inr ([], []), get_node_names = Inr [''/a/x'', ''/b/y'', ''/a/y''] \<rparr>
      ''node'' (Some ''y'') (Some ''/a'') (Some [''b'']) = Inr (3, 2, 1, [''/a/y''])"
    by (simp add: get_entities_def fetch_entities_def
      namespace_stage_def pattern_stage_def substitute_empty_def blacklist_stage_def
      startswith_def blacklisted_def regex_match_def lit_regex_def)
  have b: "(1::nat) \<noteq> 0" by simp
  have c: "set [Blacklist_filter, Pattern_filter, Namespace_filter] = {Namespace_filter, Pattern_filter, Blacklist_filter}"
    by auto
  have d: "fetch_entities \<lparr> get_topic_list = Inr ([], []), get_node_names = Inr [''/a/x'', ''/b/y'', ''/a/y''] \<rparr> ''node''
       = Inr [''/a/x'', ''/b/y'', ''/a/y'']"
    by (simp add: fetch_entities_def)
  have e: "compiles lit_regex (''.*'' @ ''b'')"
    by (simp add: compiles_def lit_regex_def)
  have f: "apply_stages lit_regex (Some ''/a'') (Some ''y'') (Some [''b''])
        [Blacklist_filter, Pattern_filter, Namespace_filter] [''/a/x'', ''/b/y'', ''/a/y'']
       = Inr [''/a/y'']"
    by (simp add: namespace_stage_def pattern_stage_def blacklist_stage_def
      startswith_def blacklisted_def regex_match_def lit_regex_def)
  show ?thesis
    using a b c d e f get_entities_filters_commute [OF a b c] by simp
qed

text \<open>
  The claim as stated fails when a placeholder is substituted: the placeholder is chosen
  from the counters, and those depend on the order. With the nodes \<open>/a/x\<close> and \<open>/b/y\<close>,
  namespace \<open>/a\<close> and pattern \<open>y\<close>, the implemented order returns the pattern placeholder,
  and the order with the pattern filter first returns the namespace placeholder.
\<close>

theorem get_entities_stage_order_counterexample:
  "get_entities lit_regex \<lparr> get_topic_list = Inr ([], []), get_node_names = Inr [''/a/x'', ''/b/y''] \<rparr>
      ''node'' (Some ''y'') (Some ''/a'') None
     = Inr (2, 1, 0, [''There are currently no nodes available matching the specified pattern.''])
   \<and> get_entities_pattern_first lit_regex \<lparr> get_topic_list = Inr ([], []), get_node_names = Inr [''/a/x'', ''/b/y''] \<rparr>
      ''node'' (Some ''y'') (Some ''/a'') None
     = Inr (2, 0, 1, [''There are currently no nodes available using the '' @ [CHR 0x27] @ ''/a'' @ [CHR 0x27] @ '' namespace.''])"
  by (simp add: get_entities_def get_entities_pattern_first_def fetch_entities_def
      namespace_stage_def pattern_stage_def substitute_empty_def blacklist_stage_def
      startswith_def msg_none_matching_def msg_none_in_namespace_def regex_match_def
      lit_regex_def)

text \<open>
  An order that returns gives the list of the implemented order, but an order may raise
  where the implemented one returns: the blacklist filter run first tests entities that
  the namespace filter would have removed, and may reach a pattern that does not compile.
  With the nodes \<open>/a/x\<close> and \<open>/b/y\<close>, namespace \<open>/a\<close> and the blacklist \<open>a\<close>, \<open>(\<close>, the
  implemented order tests \<open>/a/x\<close> only and stops at the pattern \<open>a\<close>.
\<close>

lemma apply_stages_order_may_raise:
  "get_entities lit_regex \<lparr> get_topic_list = Inr ([], []), get_node_names = Inr [''/a/x'', ''/b/y''] \<rparr>
      ''node'' None (Some ''/a'') (Some [''a'', ''(''])
     = Inr (2, 1, 1, [])
   \<and> isl (apply_stages lit_regex (Some ''/a'') None (Some [''a'', ''(''])
        [Blacklist_filter, Namespace_filter, Pattern_filter] [''/a/x'', ''/b/y''])"
  by (simp add: get_entities_def fetch_entities_def
      namespace_stage_def pattern_stage_def substitute_empty_def blacklist_stage_def
      startswith_def blacklisted_def regex_match_def lit_regex_def)

section \<open>Entity lister: placeholder for an empty result\<close>

lemma blacklist_stage_single:
  "blacklist_stage rm blacklist [x] = Inr ys \<Longrightarrow>
   ys = (if blacklisted rm (blacklist_or_empty blacklist) x = Inr False then [x] else [])"
  by (cases blacklist)
     (auto simp: blacklist_stage_def blacklisted_Nil py_not_True
       split: if_splits sum.splits)

lemma placeholders_distinct:
  "msg_none_in_system type \<noteq> msg_none_in_namespace type namespace"
  "msg_none_in_system type \<noteq> msg_none_matching type"
  "msg_none_in_namespace type namespace \<noteq> msg_none_matching type"
  by (simp_all add: msg_none_in_system_def msg_none_in_namespace_def msg_none_matching_def)

text \<open>
  What \<open>get_entities\<close> returns when a stage counts zero entities: the single explanatory
  string of the first such stage (no entities in the system, none in the namespace, none
  matching the pattern; three different strings), unless the blacklist test is true of
  that string: then the returned list is empty.
\<close>

lemma get_entities_empty_substitution:
  assumes "get_entities rm reg type pattern namespace blacklist = Inr (t, i, m, names)"
  shows "(t = 0 \<longrightarrow>
            names = (if blacklisted rm (blacklist_or_empty blacklist) (msg_none_in_system type)
                          = Inr False
                     then [msg_none_in_system type] else []))
       \<and> (t \<noteq> 0 \<and> i = 0 \<longrightarrow>
            names = (if blacklisted rm (blacklist_or_empty blacklist)
                          (msg_none_in_namespace type namespace) = Inr False
                     then [msg_none_in_namespace type namespace] else []))
       \<and> (t \<noteq> 0 \<and> i \<noteq> 0 \<and> m = 0 \<longrightarrow>
            names = (if blacklisted rm (blacklist_or_empty blacklist) (msg_none_matching type)
                          = Inr False
                     then [msg_none_matching type] else []))"
proof -
  from get_entities_Inr [OF assms] obtain entities2 entities4 where
    b: "blacklist_stage rm blacklist (substitute_empty type namespace t i m entities2)
          = Inr entities4"
    and names: "names = sort entities4"
    by blast
  have sys: "t = 0 \<Longrightarrow> substitute_empty type namespace t i m entities2 = [msg_none_in_system type]"
    by (simp add: substitute_empty_def)
  have nsp: "t \<noteq> 0 \<Longrightarrow> i = 0 \<Longrightarrow>
      substitute_empty type namespace t i m entities2 = [msg_none_in_namespace type namespace]"
    by (simp add: substitute_empty_def)
  have pat: "t \<noteq> 0 \<Longrightarrow> i \<noteq> 0 \<Longrightarrow> m = 0 \<Longrightarrow>
      substitute_empty type namespace t i m entities2 = [msg_none_matching type]"
    by (simp add: substitute_empty_def)
  show ?thesis
    using b names sys nsp pat by (auto dest!: blacklist_stage_single)
qed

text \<open>
  Claim C3 at a concrete input. One node \<open>/b/y\<close>, namespace \<open>/a\<close>: the namespace stage
  counts zero entities and, without a blacklist, the returned list is the namespace
  placeholder. With the blacklist pattern \<open>namespace\<close> the counters are the same and the
  returned list is empty: the blacklist filter, which runs after the substitution, has
  removed the explanatory string.
\<close>

theorem get_entities_placeholder_removed:
  "get_entities lit_regex \<lparr> get_topic_list = Inr ([], []), get_node_names = Inr [''/b/y''] \<rparr>
      ''node'' None (Some ''/a'') None
     = Inr (1, 0, 0, [''There are currently no nodes available using the '' @ [CHR 0x27] @ ''/a'' @ [CHR 0x27] @ '' namespace.''])
   \<and> get_entities lit_regex \<lparr> get_topic_list = Inr ([], []), get_node_names = Inr [''/b/y''] \<rparr>
      ''node'' None (Some ''/a'') (Some [''namespace''])
     = Inr (1, 0, 0, [])"
  by (simp add: get_entities_def fetch_entities_def namespace_stage_def pattern_stage_def
      substitute_empty_def blacklist_stage_def blacklisted_def startswith_def
      msg_none_in_namespace_def regex_match_def lit_regex_def)

section \<open>Parameter set: the key under the reserved namespace\<close>

lemma replace_double_slash_Nil: "replace_double_slash s = [] \<longleftrightarrow> s = []"
  by (induction s rule: replace_double_slash.induct) auto

lemma replace_double_slash_hd:
  "s \<noteq> [] \<Longrightarrow> hd (replace_double_slash s) = hd s"
  by (induction s rule: replace_double_slash.induct) auto

lemma has_double_slash_Cons:
  "has_double_slash (a # s) = ((a = CHR ''/'' \<and> s \<noteq> [] \<and> hd s = CHR ''/'') \<or> has_double_slash s)"
  by (cases s) auto

lemma has_triple_slash_Cons2:
  "has_triple_slash (a # b # s) =
     ((a = CHR ''/'' \<and> b = CHR ''/'' \<and> s \<noteq> [] \<and> hd s = CHR ''/'') \<or> has_triple_slash (b # s))"
  by (cases s) auto

lemma has_triple_slash_Cons:
  "has_triple_slash (a # s) \<Longrightarrow> \<not> has_triple_slash s \<Longrightarrow> s \<noteq> [] \<and> hd s = CHR ''/''"
  by (cases s; cases "tl s") auto

lemma double_slash_after_replace:
  "has_double_slash (replace_double_slash s) = has_triple_slash s"
proof (induction s rule: replace_double_slash.induct)
  case (1 a b r)
  show ?case
  proof (cases "a = CHR ''/'' \<and> b = CHR ''/''")
    case True
    then have "has_double_slash (replace_double_slash (a # b # r))
                 = ((r \<noteq> [] \<and> hd r = CHR ''/'') \<or> has_triple_slash r)"
      using 1 by (auto simp: has_double_slash_Cons replace_double_slash_Nil replace_double_slash_hd)
    also have "\<dots> = has_triple_slash (a # b # r)"
      using True by (cases r; cases "tl r") auto
    finally show ?thesis .
  next
    case False
    then have "has_double_slash (replace_double_slash (a # b # r)) = has_triple_slash (b # r)"
      using 1 by (auto simp: has_double_slash_Cons replace_double_slash_hd replace_double_slash_Nil)
    also have "\<dots> = has_triple_slash (a # b # r)"
      using False by (cases r) auto
    finally show ?thesis .
  qed
qed simp_all

lemma replace_double_slash_id: "\<not> has_double_slash s \<Longrightarrow> replace_double_slash s = s"
  by (induction s rule: replace_double_slash.induct) auto

lemma rosa_prefix_replace:
  "replace_double_slash (''/rosa/'' @ param) = ''/rosa'' @ replace_double_slash (CHR ''/'' # param)"
  by simp

lemma rosparam_key_plain:
  assumes "\<not> has_double_slash param"
  shows "replace_double_slash (''/rosa/'' @ param) = ''/rosa/'' @ without_leading_slash param"
proof (cases param)
  case Nil
  then show ?thesis by (simp add: without_leading_slash_def startswith_def)
next
  case (Cons c cs)
  show ?thesis
  proof (cases "c = CHR ''/''")
    case True
    have "\<not> has_double_slash cs" using assms Cons by (simp add: has_double_slash_Cons)
    then show ?thesis
      using Cons True by (simp add: without_leading_slash_def startswith_def replace_double_slash_id)
  next
    case False
    have "replace_double_slash (c # cs) = c # cs" using assms Cons by (simp add: replace_double_slash_id)
    then show ?thesis
      using Cons False by (simp add: without_leading_slash_def startswith_def)
  qed
qed

text \<open>
  The key written with \<open>is_rosa_param\<close> true, for a key that does not start with
  \<open>/rosa\<close>: it is \<open>/rosa/\<close> followed by the key, with every \<open>//\<close> found in one pass from
  the left replaced by \<open>/\<close>. The written key is free of \<open>//\<close> exactly when \<open>/rosa/\<close>
  followed by the key has no three slashes in a row; for a key with no \<open>//\<close> of its own
  it is \<open>/rosa/\<close> followed by the key without its leading slash.
\<close>

lemma rosparam_key_single_pass:
  assumes "\<not> startswith param ''/rosa''"
  shows "rosparam_key param True = replace_double_slash (''/rosa/'' @ param)
       \<and> snd (rosparam_set store_param param value True server)
           = AList.update (rosparam_key param True) value server
       \<and> (has_double_slash (rosparam_key param True) \<longleftrightarrow> has_triple_slash (''/rosa/'' @ param))
       \<and> (\<not> has_double_slash param \<longrightarrow>
            rosparam_key param True = ''/rosa/'' @ without_leading_slash param)"
proof -
  have k: "rosparam_key param True = replace_double_slash (''/rosa/'' @ param)"
    using assms by (simp add: rosparam_key_def)
  have w: "snd (rosparam_set store_param param value True server)
           = AList.update (rosparam_key param True) value server"
    by (simp add: rosparam_set_def store_param_def Let_def)
  have d: "has_double_slash (rosparam_key param True) \<longleftrightarrow> has_triple_slash (''/rosa/'' @ param)"
    unfolding k by (rule double_slash_after_replace)
  have p: "\<not> has_double_slash param \<longrightarrow>
            rosparam_key param True = ''/rosa/'' @ without_leading_slash param"
    unfolding k using rosparam_key_plain [of param] by blast
  from k w d p show ?thesis by blast
qed

text \<open>
  Claim C7 at a concrete input. The key \<open>foo\<close> is written as \<open>/rosa/foo\<close>. The key
  \<open>//foo\<close> does not start with \<open>/rosa\<close>; the single pass of the replacement turns the
  three slashes of \<open>/rosa///foo\<close> into two, and the key written to the parameter server,
  \<open>/rosa//foo\<close>, still has a double slash.
\<close>

theorem rosparam_set_double_slash_kept:
  "rosparam_key ''foo'' True = ''/rosa/foo''
   \<and> startswith ''//foo'' ''/rosa'' = False
   \<and> rosparam_key ''//foo'' True = ''/rosa//foo''
   \<and> has_double_slash (rosparam_key ''//foo'' True)
   \<and> rosparam_set store_param ''//foo'' ''1'' True []
       = (Inr (''Set parameter '' @ quoted ''/rosa//foo'' @ '' to '' @ quoted ''1'' @ ''.''),
          [(''/rosa//foo'', ''1'')])"
  by (simp add: startswith_def rosparam_key_def rosparam_set_def store_param_def Let_def)

section \<open>Graph builder: triples and size warning\<close>

lemma map_of_Some_key: "map_of m k = Some v \<Longrightarrow> k \<in> fst ` set m"
  by (metis map_of_eq_None_iff option.distinct(1))

lemma py_for_elements:
  assumes "py_for body xs = Inr ys"
    and "\<And>x zs z. x \<in> set xs \<Longrightarrow> body x = Inr zs \<Longrightarrow> z \<in> set zs \<Longrightarrow> P z"
  shows "\<forall>y \<in> set ys. P y"
  using assms
proof (induction xs arbitrary: ys)
  case Nil
  then show ?case by simp
next
  case (Cons x xs)
  from Cons.prems(1) obtain zs ws where
    zs: "body x = Inr zs" and ws: "py_for body xs = Inr ws" and ys: "ys = zs @ ws"
    by (auto split: sum.splits)
  have "\<forall>y \<in> set zs. P y" using zs Cons.prems(2) by auto
  moreover have "\<forall>y \<in> set ws. P y" using ws Cons.prems(2) by (intro Cons.IH) auto
  ultimately show ?case using ys by auto
qed

lemma join_maps_topics:
  assumes "join_maps rm topic_pattern topic_pub_map topic_sub_map = Inr g"
  shows "\<forall>x \<in> set g. fst (snd x) \<in> fst ` set topic_pub_map
                     \<and> fst (snd x) \<in> fst ` set topic_sub_map"
proof (rule py_for_elements [OF assms [unfolded join_maps_def]])
  fix entry zs z
  assume entry: "entry \<in> set topic_pub_map"
    and body: "(case entry of (topic, pubs) \<Rightarrow>
                 case map_of topic_sub_map topic of
                   None \<Rightarrow> Inr []
                 | Some subs \<Rightarrow>
                     py_for (\<lambda>pub.
                       py_for (\<lambda>sub.
                         case (if truthy_str topic_pattern
                               then py_not (regex_match rm (py_str topic_pattern) topic)
                               else Inr False) of
                           Inl e \<Rightarrow> Inl e
                         | Inr skip \<Rightarrow> Inr (if skip then [] else [(pub, topic, sub)])) subs) pubs)
               = Inr zs"
    and z: "z \<in> set zs"
  obtain topic pubs where e: "entry = (topic, pubs)" by (cases entry)
  from body e z obtain subs where subs: "map_of topic_sub_map topic = Some subs"
    by (cases "map_of topic_sub_map topic") auto
  from body e subs have run:
    "py_for (\<lambda>pub.
       py_for (\<lambda>sub.
         case (if truthy_str topic_pattern
               then py_not (regex_match rm (py_str topic_pattern) topic)
               else Inr False) of
           Inl e \<Rightarrow> Inl e
         | Inr skip \<Rightarrow> Inr (if skip then [] else [(pub, topic, sub)])) subs) pubs = Inr zs"
    by simp
  have "\<forall>y \<in> set zs. fst (snd y) = topic"
  proof (rule py_for_elements [OF run])
    fix pub ws w
    assume inner: "py_for (\<lambda>sub.
         case (if truthy_str topic_pattern
               then py_not (regex_match rm (py_str topic_pattern) topic)
               else Inr False) of
           Inl e \<Rightarrow> Inl e
         | Inr skip \<Rightarrow> Inr (if skip then [] else [(pub, topic, sub)])) subs = Inr ws"
      and w: "w \<in> set ws"
    have "\<forall>y \<in> set ws. fst (snd y) = topic"
      by (rule py_for_elements [OF inner]) (auto split: sum.splits if_splits)
    with w show "fst (snd w) = topic" by simp
  qed
  with z have "fst (snd z) = topic" by simp
  moreover have "topic \<in> fst ` set topic_pub_map" using entry e by force
  moreover have "topic \<in> fst ` set topic_sub_map" using subs by (rule map_of_Some_key)
  ultimately show "fst (snd z) \<in> fst ` set topic_pub_map
                     \<and> fst (snd z) \<in> fst ` set topic_sub_map"
    by simp
qed

lemma graph_exclude_self_subset:
  "set (graph_exclude_self ex g) \<subseteq> set g"
  by (auto simp: graph_exclude_self_def)

lemma graph_node_pattern_subset:
  "graph_node_pattern rm np g = Inr g' \<Longrightarrow> set g' \<subseteq> set g"
  by (auto simp: graph_node_pattern_def split: if_splits dest: py_filter_subset)

lemma graph_blacklist_subset:
  "graph_blacklist rm bl g = Inr g' \<Longrightarrow> set g' \<subseteq> set g"
  by (auto simp: graph_blacklist_def dest: py_filter_subset)

lemma build_graph_Inr:
  assumes "build_graph rm publishers subscribers namespace node_pattern topic_pattern
             blacklist ex = Inr g"
  shows "\<exists>g0. join_maps rm topic_pattern (build_map namespace publishers)
                 (build_map namespace subscribers) = Inr g0
             \<and> set g \<subseteq> set g0
             \<and> (ex \<longrightarrow> (\<forall>x \<in> set g. fst x \<noteq> snd (snd x)))"
proof -
  from assms obtain g0 g1 g2 where
    j: "join_maps rm topic_pattern (build_map namespace publishers)
          (build_map namespace subscribers) = Inr g0"
    and b: "graph_blacklist rm (blacklist_or_empty blacklist) g0 = Inr g1"
    and n: "graph_node_pattern rm node_pattern g1 = Inr g2"
    and g: "g = graph_exclude_self ex g2"
    by (auto simp: build_graph_def split: sum.splits)
  have "set g \<subseteq> set g0"
    using graph_blacklist_subset [OF b] graph_node_pattern_subset [OF n]
      graph_exclude_self_subset [of ex g2] g
    by blast
  moreover have "ex \<longrightarrow> (\<forall>x \<in> set g. fst x \<noteq> snd (snd x))"
    using g by (auto simp: graph_exclude_self_def)
  ultimately show ?thesis using j by blast
qed

lemma rosgraph_get_graph:
  assumes "rosgraph_get rm st namespace node_pattern topic_pattern blacklist ex = Inr (Graph r)"
  shows "\<exists>publishers subscribers. st = Inr (publishers, subscribers) \<and>
           build_graph rm publishers subscribers namespace node_pattern topic_pattern
             blacklist ex = Inr (graph r)
         \<and> total_connections r = length (graph r)
         \<and> warning r = (if 50 < length (graph r) then Some oversize_warning else None)"
  using assms
  by (auto simp: rosgraph_get_def Let_def split: sum.splits if_splits)

text \<open>
  Claim C4. A successful response of the graph builder carries the oversize warning if and
  only if the number of triples in its graph is greater than 50; with 50 triples or fewer
  there is no warning. The graph of the response is the whole filtered list of triples
  (nothing is cut off), and \<open>total_connections\<close> is its length.
\<close>

theorem rosgraph_get_warning_iff:
  assumes "rosgraph_get rm st namespace node_pattern topic_pattern blacklist ex = Inr (Graph r)"
  shows "(warning r = Some oversize_warning \<longleftrightarrow> 50 < length (graph r))
       \<and> (warning r = None \<longleftrightarrow> length (graph r) \<le> 50)
       \<and> total_connections r = length (graph r)
       \<and> (\<exists>publishers subscribers. st = Inr (publishers, subscribers) \<and>
            build_graph rm publishers subscribers namespace node_pattern topic_pattern
              blacklist ex = Inr (graph r))"
  using rosgraph_get_graph [OF assms] by (auto split: if_splits)

theorem rosgraph_get_warning_iff_witness:
  "rosgraph_get lit_regex (Inr ([(''/t'', replicate 51 ''/p'')], [(''/t'', [''/s''])]))
       (Some ''/'') (Some ''.*'') (Some ''.*'') None True
     = Inr (Graph \<lparr> graph_convention =
                      ''Each tuple in the graph is of the form (publisher, topic, subscriber).'',
                    nuance = ''Disconnected nodes are not included in this graph.'',
                    node_count = 2, topic_count = 1, total_connections = 51,
                    graph = replicate 51 (''/p'', ''/t'', ''/s''),
                    warning = Some oversize_warning \<rparr>)
   \<and> rosgraph_get lit_regex (Inr ([(''/t'', replicate 50 ''/p'')], [(''/t'', [''/s''])]))
       (Some ''/'') (Some ''.*'') (Some ''.*'') None True
     = Inr (Graph \<lparr> graph_convention =
                      ''Each tuple in the graph is of the form (publisher, topic, subscriber).'',
                    nuance = ''Disconnected nodes are not included in this graph.'',
                    node_count = 2, topic_count = 1, total_connections = 50,
                    graph = replicate 50 (''/p'', ''/t'', ''/s''),
                    warning = None \<rparr>)
   \<and> (50::nat) < length (replicate 51 (''/p'', ''/t'', ''/s''))
   \<and> length (replicate 50 (''/p'', ''/t'', ''/s'')) \<le> (50::nat)"
proof -
  have a: "rosgraph_get lit_regex (Inr ([(''/t'', replicate 51 ''/p'')], [(''/t'', [''/s''])]))
       (Some ''/'') (Some ''.*'') (Some ''.*'') None True
     = Inr (Graph \<lparr> graph_convention =
                      ''Each tuple in the graph is of the form (publisher, topic, subscriber).'',
                    nuance = ''Disconnected nodes are not included in this graph.'',
                    node_count = 2, topic_count = 1, total_connections = 51,
                    graph = replicate 51 (''/p'', ''/t'', ''/s''),
                    warning = Some oversize_warning \<rparr>)"
    by code_simp
  have b: "rosgraph_get lit_regex (Inr ([(''/t'', replicate 50 ''/p'')], [(''/t'', [''/s''])]))
       (Some ''/'') (Some ''.*'') (Some ''.*'') None True
     = Inr (Graph \<lparr> graph_convention =
                      ''Each tuple in the graph is of the form (publisher, topic, subscriber).'',
                    nuance = ''Disconnected nodes are not included in this graph.'',
                    node_count = 2, topic_count = 1, total_connections = 50,
                    graph = replicate 50 (''/p'', ''/t'', ''/s''),
                    warning = None \<rparr>)"
    by code_simp
  show ?thesis
    using a b rosgraph_get_warning_iff [OF a, THEN conjunct1]
      rosgraph_get_warning_iff [OF b, THEN conjunct2, THEN conjunct1]
    by simp
qed

text \<open>
  Claim C5. Every triple (publisher, topic, subscriber) of the graph returned by the graph
  builder has its topic among the keys of the topic-to-publishers map and of the
  topic-to-subscribers map built before the filters; with \<open>exclude_self_connections\<close>
  true, its publisher differs from its subscriber.
\<close>

theorem rosgraph_get_triples:
  assumes "rosgraph_get rm (Inr (publishers, subscribers)) namespace node_pattern topic_pattern
             blacklist ex = Inr (Graph r)"
    and "(pub, topic, sub) \<in> set (graph r)"
  shows "topic \<in> fst ` set (build_map namespace publishers)
       \<and> topic \<in> fst ` set (build_map namespace subscribers)
       \<and> (ex \<longrightarrow> pub \<noteq> sub)"
proof -
  from rosgraph_get_graph [OF assms(1)]
  have g: "build_graph rm publishers subscribers namespace node_pattern topic_pattern
             blacklist ex = Inr (graph r)"
    by auto
  from build_graph_Inr [OF g] obtain g0 where
    j: "join_maps rm topic_pattern (build_map namespace publishers)
          (build_map namespace subscribers) = Inr g0"
    and sub: "set (graph r) \<subseteq> set g0"
    and self: "ex \<longrightarrow> (\<forall>x \<in> set (graph r). fst x \<noteq> snd (snd x))"
    by blast
  have "(pub, topic, sub) \<in> set g0" using assms(2) sub by blast
  with join_maps_topics [OF j]
  have "topic \<in> fst ` set (build_map namespace publishers)
       \<and> topic \<in> fst ` set (build_map namespace subscribers)"
    by force
  moreover have "ex \<longrightarrow> pub \<noteq> sub"
    using assms(2) self by force
  ultimately show ?thesis by simp
qed

theorem rosgraph_get_triples_witness:
  "rosgraph_get lit_regex (Inr ([(''/a/t1'', [''/a/n1''])], [(''/a/t1'', [''/a/n2''])]))
       (Some ''/a'') (Some ''.*'') (Some ''.*'') None True
     = Inr (Graph \<lparr> graph_convention =
                      ''Each tuple in the graph is of the form (publisher, topic, subscriber).'',
                    nuance = ''Disconnected nodes are not included in this graph.'',
                    node_count = 2, topic_count = 1, total_connections = 1,
                    graph = [(''/a/n1'', ''/a/t1'', ''/a/n2'')],
                    warning = None \<rparr>)
   \<and> ''/a/t1'' \<in> fst ` set (build_map (Some ''/a'') [(''/a/t1'', [''/a/n1''])])
   \<and> ''/a/t1'' \<in> fst ` set (build_map (Some ''/a'') [(''/a/t1'', [''/a/n2''])])
   \<and> ''/a/n1'' \<noteq> ''/a/n2''"
proof -
  have a: "rosgraph_get lit_regex (Inr ([(''/a/t1'', [''/a/n1''])], [(''/a/t1'', [''/a/n2''])]))
       (Some ''/a'') (Some ''.*'') (Some ''.*'') None True
     = Inr (Graph \<lparr> graph_convention =
                      ''Each tuple in the graph is of the form (publisher, topic, subscriber).'',
                    nuance = ''Disconnected nodes are not included in this graph.'',
                    node_count = 2, topic_count = 1, total_connections = 1,
                    graph = [(''/a/n1'', ''/a/t1'', ''/a/n2'')],
                    warning = None \<rparr>)"
    by code_simp
  show ?thesis
    using a rosgraph_get_triples [OF a, of "''/a/n1''" "''/a/t1''" "''/a/n2''"] by simp
qed

section \<open>Failures of the underlying calls\<close>

lemma entity_tool_returns:
  "\<exists>r. entity_tool type failure rm reg pattern namespace blacklist = Inr r"
  by (simp add: entity_tool_def split: sum.split prod.split)

lemma entity_tool_failure:
  "fetch_entities reg type = Inl e \<Longrightarrow>
   entity_tool type failure rm reg pattern namespace blacklist
     = Inr (Error_payload (failure @ exn_text e))"
  by (simp add: entity_tool_def get_entities_def)

lemma rosgraph_get_failure:
  "rosgraph_get rm (Inl e) namespace node_pattern topic_pattern blacklist ex
     = Inr (Failed_to_get_graph (''Failed to get ROS graph: '' @ exn_text e))"
  by (simp add: rosgraph_get_def)

lemma rosparam_list_returns:
  "\<exists>r. rosparam_list rm list_params namespace blacklist = Inr r"
  by (simp add: rosparam_list_def split: sum.split)

lemma rosparam_list_failure:
  "list_params namespace = Inl e \<Longrightarrow>
   rosparam_list rm list_params namespace blacklist
     = Inr (Error_payload (''Failed to get ROS parameters: '' @ exn_text e))"
  by (simp add: rosparam_list_def)

lemma rosparam_set_returns:
  "\<exists>r. fst (rosparam_set set_param param value is_rosa_param server) = Inr r"
  by (simp add: rosparam_set_def Let_def split: sum.split prod.split)

lemma rosparam_set_failure:
  "fst (set_param (rosparam_key param is_rosa_param) value server) = Inl e \<Longrightarrow>
   fst (rosparam_set set_param param value is_rosa_param server)
     = Inr (''Failed to set parameter '' @ quoted (rosparam_key param is_rosa_param)
            @ '' to '' @ quoted value @ '': '' @ exn_text e @ ''. Try again!'')"
  by (cases "set_param (rosparam_key param is_rosa_param) value server")
     (simp add: rosparam_set_def Let_def)

lemma rosparam_get_loop_propagates:
  "(\<And>k. k \<in> set before \<Longrightarrow> \<not> isl (get_param k)) \<Longrightarrow> get_param param = Inl e \<Longrightarrow>
   rosparam_get_loop get_param (before @ param # params) vals = Inl e"
proof (induction before arbitrary: vals)
  case Nil
  then show ?case by simp
next
  case (Cons k ks)
  from Cons.prems(1) [of k] obtain p where "get_param k = Inr p"
    by (cases "get_param k") auto
  then show ?case using Cons by simp
qed

lemma rosparam_get_propagates:
  "(\<forall>k \<in> set before. \<not> isl (get_param k)) \<Longrightarrow> get_param param = Inl e \<Longrightarrow>
   rosparam_get get_param (before @ param # params) = Inl e"
  unfolding rosparam_get_def by (rule rosparam_get_loop_propagates) auto

lemma rosservice_list_propagates:
  "get_service_list node namespace include_nodes = Inl e \<Longrightarrow>
   rosservice_list rm get_service_list node namespace include_nodes regex_pattern
       exclude_logging exclude_rosapi exclude_parameters exclude_pattern blacklist = Inl e"
  by (simp add: rosservice_list_def)

lemma log_sizes_loop_propagates:
  "(\<And>k. k \<in> set before \<Longrightarrow> \<not> isl (size_of (os_path_join log_dir k))) \<Longrightarrow>
   size_of (os_path_join log_dir log) = Inl e \<Longrightarrow>
   log_sizes_loop size_of log_dir min_size (before @ log # logs) log_sizes = Inl e"
proof (induction before arbitrary: log_sizes)
  case Nil
  then show ?case by simp
next
  case (Cons k ks)
  from Cons.prems(1) [of k] obtain sz where "size_of (os_path_join log_dir k) = Inr sz"
    by (cases "size_of (os_path_join log_dir k)") auto
  then show ?case using Cons by simp
qed

lemma roslog_list_propagates:
  "get_log_dir env = Inl e \<Longrightarrow> roslog_list rm env min_size blacklist = Inl e"
  "get_log_dir env = Inr d \<Longrightarrow> listdir env (d @ ''/'') = Inl e \<Longrightarrow>
   roslog_list rm env min_size blacklist = Inl e"
  by (simp_all add: roslog_list_def)

lemma roslog_list_getsize_propagates:
  assumes "get_log_dir env = Inr d" and "listdir env (d @ ''/'') = Inr logs"
    and "log_blacklist rm blacklist logs = Inr (before @ log # rest)"
    and "\<forall>k \<in> set before. \<not> isl (getsize env (os_path_join (d @ ''/'') k))"
    and "getsize env (os_path_join (d @ ''/'') log) = Inl e"
  shows "roslog_list rm env min_size blacklist = Inl e"
proof -
  have "log_sizes_loop (getsize env) (d @ ''/'') min_size (before @ log # rest) [] = Inl e"
    using assms(4,5) by (intro log_sizes_loop_propagates) auto
  then show ?thesis using assms(1-3) by (simp add: roslog_list_def)
qed

text \<open>
  Claim C1, as the code has it. \<open>rostopic_list\<close>, \<open>rosnode_list\<close>, \<open>rosparam_list\<close> and
  \<open>rosparam_set\<close> always return, and \<open>rosgraph_get\<close> returns when its registry call
  fails: the failure of the registry or parameter call becomes the error payload, or for
  \<open>rosparam_set\<close> the failure string, holding the exception's text. \<open>rosparam_get\<close>,
  \<open>rosservice_list\<close> and \<open>roslog_list\<close> have no handler: the exception raised by the
  read of any key (the keys before it having been read), by the service query, or by the
  log directory lookup, the directory listing or the size query of any file that passed
  the blacklist (the sizes before it having been read) is the outcome of the tool.
\<close>

theorem tools_failure_handling:
  "rosgraph_get rm (Inl e) namespace node_pattern topic_pattern blacklist ex
       = Inr (Failed_to_get_graph (''Failed to get ROS graph: '' @ exn_text e))
   \<and> (\<exists>r. rostopic_list rm reg pattern opt_namespace blacklist = Inr r)
   \<and> (get_topic_list reg = Inl e \<longrightarrow>
        rostopic_list rm reg pattern opt_namespace blacklist
          = Inr (Error_payload (''Failed to get ROS topics: '' @ exn_text e)))
   \<and> (\<exists>r. rosnode_list rm reg pattern opt_namespace blacklist = Inr r)
   \<and> (get_node_names reg = Inl e \<longrightarrow>
        rosnode_list rm reg pattern opt_namespace blacklist
          = Inr (Error_payload (''Failed to get ROS nodes: '' @ exn_text e)))
   \<and> (\<exists>r. rosparam_list rm list_params param_namespace blacklist = Inr r)
   \<and> (list_params param_namespace = Inl e \<longrightarrow>
        rosparam_list rm list_params param_namespace blacklist
          = Inr (Error_payload (''Failed to get ROS parameters: '' @ exn_text e)))
   \<and> (\<exists>r. fst (rosparam_set set_param param val is_rosa_param server) = Inr r)
   \<and> (fst (set_param (rosparam_key param is_rosa_param) val server) = Inl e \<longrightarrow>
        fst (rosparam_set set_param param val is_rosa_param server)
          = Inr (''Failed to set parameter '' @ quoted (rosparam_key param is_rosa_param)
                 @ '' to '' @ quoted val @ '': '' @ exn_text e @ ''. Try again!''))
   \<and> ((\<forall>k \<in> set params_read. \<not> isl (get_param k)) \<and> get_param param = Inl e \<longrightarrow>
        rosparam_get get_param (params_read @ param # params) = Inl e)
   \<and> (get_service_list node opt_namespace include_nodes = Inl e \<longrightarrow>
        rosservice_list rm get_service_list node opt_namespace include_nodes regex_pattern
          exclude_logging exclude_rosapi exclude_parameters exclude_pattern blacklist = Inl e)
   \<and> (get_log_dir env = Inl e \<longrightarrow> roslog_list rm env min_size blacklist = Inl e)
   \<and> (get_log_dir env = Inr d \<and> listdir env (d @ ''/'') = Inl e \<longrightarrow>
        roslog_list rm env min_size blacklist = Inl e)
   \<and> (get_log_dir env = Inr d \<and> listdir env (d @ ''/'') = Inr logs
        \<and> log_blacklist rm blacklist logs = Inr (logs_sized @ log # logs_rest)
        \<and> (\<forall>k \<in> set logs_sized. \<not> isl (getsize env (os_path_join (d @ ''/'') k)))
        \<and> getsize env (os_path_join (d @ ''/'') log) = Inl e \<longrightarrow>
        roslog_list rm env min_size blacklist = Inl e)"
proof -
  have topic: "get_topic_list reg = Inl e \<Longrightarrow> fetch_entities reg ''topic'' = Inl e"
    by (simp add: fetch_entities_def)
  have node: "get_node_names reg = Inl e \<Longrightarrow> fetch_entities reg ''node'' = Inl e"
    by (simp add: fetch_entities_def)
  have c1: "rosgraph_get rm (Inl e) namespace node_pattern topic_pattern blacklist ex
       = Inr (Failed_to_get_graph (''Failed to get ROS graph: '' @ exn_text e))"
    by (rule rosgraph_get_failure)
  have c2: "\<exists>r. rostopic_list rm reg pattern opt_namespace blacklist = Inr r"
    unfolding rostopic_list_def by (rule entity_tool_returns)
  have c3: "get_topic_list reg = Inl e \<longrightarrow>
        rostopic_list rm reg pattern opt_namespace blacklist
          = Inr (Error_payload (''Failed to get ROS topics: '' @ exn_text e))"
    unfolding rostopic_list_def using topic by (simp add: entity_tool_failure)
  have c4: "\<exists>r. rosnode_list rm reg pattern opt_namespace blacklist = Inr r"
    unfolding rosnode_list_def by (rule entity_tool_returns)
  have c5: "get_node_names reg = Inl e \<longrightarrow>
        rosnode_list rm reg pattern opt_namespace blacklist
          = Inr (Error_payload (''Failed to get ROS nodes: '' @ exn_text e))"
    unfolding rosnode_list_def using node by (simp add: entity_tool_failure)
  have c6: "\<exists>r. rosparam_list rm list_params param_namespace blacklist = Inr r"
    by (rule rosparam_list_returns)
  have c7: "list_params param_namespace = Inl e \<longrightarrow>
        rosparam_list rm list_params param_namespace blacklist
          = Inr (Error_payload (''Failed to get ROS parameters: '' @ exn_text e))"
    by (simp add: rosparam_list_failure)
  have c8: "\<exists>r. fst (rosparam_set set_param param val is_rosa_param server) = Inr r"
    by (rule rosparam_set_returns)
  have c9: "fst (set_param (rosparam_key param is_rosa_param) val server) = Inl e \<longrightarrow>
        fst (rosparam_set set_param param val is_rosa_param server)
          = Inr (''Failed to set parameter '' @ quoted (rosparam_key param is_rosa_param)
                 @ '' to '' @ quoted val @ '': '' @ exn_text e @ ''. Try again!'')"
    using rosparam_set_failure [of set_param param is_rosa_param val server e] by blast
  have c10: "(\<forall>k \<in> set params_read. \<not> isl (get_param k)) \<and> get_param param = Inl e \<longrightarrow>
        rosparam_get get_param (params_read @ param # params) = Inl e"
    using rosparam_get_propagates [of params_read get_param param e params] by blast
  have c11: "get_service_list node opt_namespace include_nodes = Inl e \<longrightarrow>
        rosservice_list rm get_service_list node opt_namespace include_nodes regex_pattern
          exclude_logging exclude_rosapi exclude_parameters exclude_pattern blacklist = Inl e"
    by (simp add: rosservice_list_propagates)
  have c12: "get_log_dir env = Inl e \<longrightarrow> roslog_list rm env min_size blacklist = Inl e"
    by (simp add: roslog_list_propagates)
  have c13: "get_log_dir env = Inr d \<and> listdir env (d @ ''/'') = Inl e \<longrightarrow>
        roslog_list rm env min_size blacklist = Inl e"
    by (simp add: roslog_list_propagates)
  have c14: "get_log_dir env = Inr d \<and> listdir env (d @ ''/'') = Inr logs
        \<and> log_blacklist rm blacklist logs = Inr (logs_sized @ log # logs_rest)
        \<and> (\<forall>k \<in> set logs_sized. \<not> isl (getsize env (os_path_join (d @ ''/'') k)))
        \<and> getsize env (os_path_join (d @ ''/'') log) = Inl e \<longrightarrow>
        roslog_list rm env min_size blacklist = Inl e"
    using roslog_list_getsize_propagates
      [of env d logs rm blacklist logs_sized log logs_rest e min_size]
    by blast
  show ?thesis
    by (intro conjI) (fact c1 c2 c3 c4 c5 c6 c7 c8 c9 c10 c11 c12 c13 c14)+
qed

theorem tools_failure_handling_witness:
  "rosgraph_get lit_regex (Inl (Raised ''connection refused'')) (Some ''/'') (Some ''.*'')
       (Some ''.*'') None True
     = Inr (Failed_to_get_graph ''Failed to get ROS graph: connection refused'')
   \<and> rostopic_list lit_regex
        \<lparr> get_topic_list = Inl (Raised ''connection refused''),
          get_node_names = Inl (Raised ''connection refused'') \<rparr> None None None
     = Inr (Error_payload ''Failed to get ROS topics: connection refused'')
   \<and> rosnode_list lit_regex
        \<lparr> get_topic_list = Inl (Raised ''connection refused''),
          get_node_names = Inl (Raised ''connection refused'') \<rparr> None None None
     = Inr (Error_payload ''Failed to get ROS nodes: connection refused'')
   \<and> rosparam_list lit_regex (\<lambda>ns. Inl (Raised ''connection refused'')) ''/'' None
     = Inr (Error_payload ''Failed to get ROS parameters: connection refused'')
   \<and> fst (rosparam_set (\<lambda>k v s. (Inl (Raised ''connection refused''), s)) ''/b'' ''1'' False
            ([] :: (string \<times> string) list))
     = Inr (''Failed to set parameter '' @ quoted ''/b'' @ '' to '' @ quoted ''1''
            @ '': connection refused. Try again!'')
   \<and> rosparam_get (\<lambda>p. if p = ''/a'' then Inr ''1'' else Inl (Raised ''connection refused''))
        [''/a'', ''/b'', ''/c'']
     = Inl (Raised ''connection refused'')
   \<and> rosservice_list lit_regex (\<lambda>n ns i. Inl (Raised ''connection refused'')) None None False
        None True True True None None
     = Inl (Raised ''connection refused'')
   \<and> roslog_list lit_regex
        \<lparr> get_log_dir = Inl (Raised ''connection refused''),
          listdir = (\<lambda>d. Inr [''a.log'', ''b.log'']),
          getsize = (\<lambda>p. Inr 4096) \<rparr> 2048 None
     = Inl (Raised ''connection refused'')
   \<and> roslog_list lit_regex
        \<lparr> get_log_dir = Inr ''/root/.ros/log'',
          listdir = (\<lambda>d. Inl (Raised ''connection refused'')),
          getsize = (\<lambda>p. Inr 4096) \<rparr> 2048 None
     = Inl (Raised ''connection refused'')
   \<and> roslog_list lit_regex
        \<lparr> get_log_dir = Inr ''/root/.ros/log'',
          listdir = (\<lambda>d. Inr [''a.log'', ''b.log'']),
          getsize = (\<lambda>p. if p = ''/root/.ros/log/a.log'' then Inr 4096
                          else Inl (Raised ''connection refused'')) \<rparr> 2048 (Some [])
     = Inl (Raised ''connection refused'')"
proof -
  let ?e = "Raised ''connection refused''"
  let ?env3 = "\<lparr> get_log_dir = Inr ''/root/.ros/log'',
          listdir = (\<lambda>d. Inr [''a.log'', ''b.log'']),
          getsize = (\<lambda>p. if p = ''/root/.ros/log/a.log'' then Inr 4096 else Inl ?e) \<rparr>"
  have h1: "log_blacklist lit_regex (Some []) [''a.log'', ''b.log''] = Inr ([''a.log''] @ ''b.log'' # [])"
    by (simp add: log_blacklist_def blacklisted_def)
  have h2: "\<forall>k \<in> set [''a.log'']. \<not> isl (getsize ?env3 (os_path_join (''/root/.ros/log'' @ ''/'') k))"
    by (simp add: os_path_join_def startswith_def endswith_def suffix_def)
  have h3: "getsize ?env3 (os_path_join (''/root/.ros/log'' @ ''/'') ''b.log'') = Inl ?e"
    by (simp add: os_path_join_def startswith_def endswith_def suffix_def)
  have h4: "\<forall>k \<in> set [''/a'']. \<not> isl ((\<lambda>p. if p = ''/a'' then Inr ''1'' else Inl ?e) k)"
    by simp
  note general = tools_failure_handling
    [where rm = lit_regex and e = ?e
       and namespace = "Some ''/''" and node_pattern = "Some ''.*''"
       and topic_pattern = "Some ''.*''" and blacklist = None and ex = True
       and reg = "\<lparr> get_topic_list = Inl ?e, get_node_names = Inl ?e \<rparr>"
       and pattern = None and opt_namespace = None
       and list_params = "\<lambda>ns. Inl ?e"
       and param_namespace = "''/''"
       and set_param = "\<lambda>k v s. (Inl ?e, s)"
       and param = "''/b''" and val = "''1''" and is_rosa_param = False
       and server = "[] :: (string \<times> string) list"
       and get_param = "\<lambda>p. if p = ''/a'' then Inr ''1'' else Inl ?e"
       and params_read = "[''/a'']" and params = "[''/c'']"
       and get_service_list = "\<lambda>n ns i. Inl ?e"
       and node = None and include_nodes = False and regex_pattern = None
       and exclude_logging = True and exclude_rosapi = True and exclude_parameters = True
       and exclude_pattern = None and min_size = 2048]
  note dir_fails = general
    [where env = "\<lparr> get_log_dir = Inl ?e, listdir = (\<lambda>d. Inr [''a.log'', ''b.log'']),
                    getsize = (\<lambda>p. Inr 4096) \<rparr>"
       and d = "''/root/.ros/log''" and logs = "[]" and logs_sized = "[]"
       and log = "[]" and logs_rest = "[]"]
  note listing_fails = general
    [where env = "\<lparr> get_log_dir = Inr ''/root/.ros/log'', listdir = (\<lambda>d. Inl ?e),
                    getsize = (\<lambda>p. Inr 4096) \<rparr>"
       and d = "''/root/.ros/log''" and logs = "[]" and logs_sized = "[]"
       and log = "[]" and logs_rest = "[]"]
  note size_fails = tools_failure_handling
    [where rm = lit_regex and e = ?e
       and namespace = "Some ''/''" and node_pattern = "Some ''.*''"
       and topic_pattern = "Some ''.*''" and blacklist = "Some []" and ex = True
       and reg = "\<lparr> get_topic_list = Inl ?e, get_node_names = Inl ?e \<rparr>"
       and pattern = None and opt_namespace = None
       and list_params = "\<lambda>ns. Inl ?e"
       and param_namespace = "''/''"
       and set_param = "\<lambda>k v s. (Inl ?e, s)"
       and param = "''/b''" and val = "''1''" and is_rosa_param = False
       and server = "[] :: (string \<times> string) list"
       and get_param = "\<lambda>p. if p = ''/a'' then Inr ''1'' else Inl ?e"
       and params_read = "[''/a'']" and params = "[''/c'']"
       and get_service_list = "\<lambda>n ns i. Inl ?e"
       and node = None and include_nodes = False and regex_pattern = None
       and exclude_logging = True and exclude_rosapi = True and exclude_parameters = True
       and exclude_pattern = None and min_size = 2048
       and env = ?env3 and d = "''/root/.ros/log''" and logs = "[''a.log'', ''b.log'']"
       and logs_sized = "[''a.log'']" and log = "''b.log''" and logs_rest = "[]"]
  show ?thesis
    using dir_fails listing_fails size_fails h1 h2 h3 h4
    by (simp add: rosparam_key_def quoted_def suffix_def)
qed

text \<open>
  The claim as stated fails for the tools without a handler: the exception raised by the
  read of the second key, by the service query or by the directory listing is the outcome
  of the tool. It fails for \<open>rosgraph_get\<close> too when the filters, which run after the
  handler, meet a node pattern that does not compile.
\<close>

theorem tools_exception_propagates_counterexample:
  "rosparam_get (\<lambda>p. if p = ''/a'' then Inr ''1'' else Inl (Raised ''master unreachable''))
        [''/a'', ''/rosa/speed'']
     = Inl (Raised ''master unreachable'')
   \<and> rosservice_list lit_regex (\<lambda>n ns i. Inl (Raised ''master unreachable'')) None None False
        None True True True None None
     = Inl (Raised ''master unreachable'')
   \<and> roslog_list lit_regex
        \<lparr> get_log_dir = Inr ''/root/.ros/log'',
          listdir = (\<lambda>d. Inl (Raised ''No such file or directory'')),
          getsize = (\<lambda>p. Inr 0) \<rparr> 2048 (Some [])
     = Inl (Raised ''No such file or directory'')
   \<and> isl (rosgraph_get lit_regex (Inr ([(''/t'', [''/p''])], [(''/t'', [''/s''])]))
        (Some ''/'') (Some ''('') (Some ''.*'') None True)"
  by code_simp

section \<open>Log lister: the default blacklist\<close>

lemma update_absent: "k \<notin> fst ` set al \<Longrightarrow> AList.update k v al = al @ [(k, v)]"
  by (induction al) auto

lemma set_update_same:
  "\<forall>v'. (k, v') \<in> set al \<longrightarrow> v' = v \<Longrightarrow> set (AList.update k v al) = insert (k, v) (set al)"
  by (induction al) auto

lemma log_sizes_loop_result:
  assumes "log_sizes_loop size_of log_dir min_size logs acc = Inr res"
    and "distinct (map fst acc)"
    and "\<forall>(k, v) \<in> set acc. size_of (os_path_join log_dir k) = Inr v"
  shows "distinct (map fst res)
       \<and> set res = set acc \<union> {(log, sz). log \<in> set logs
                       \<and> size_of (os_path_join log_dir log) = Inr sz \<and> min_size \<le> sz}"
  using assms
proof (induction logs arbitrary: acc)
  case Nil
  then show ?case by simp
next
  case (Cons log logs)
  from Cons.prems(1) obtain sz where sz: "size_of (os_path_join log_dir log) = Inr sz"
    by (cases "size_of (os_path_join log_dir log)") auto
  let ?acc = "if min_size \<le> sz then AList.update log sz acc else acc"
  from Cons.prems(1) sz have run: "log_sizes_loop size_of log_dir min_size logs ?acc = Inr res"
    by simp
  have same: "\<forall>v'. (log, v') \<in> set acc \<longrightarrow> v' = sz"
    using Cons.prems(3) sz by auto
  have d: "distinct (map fst ?acc)"
    using Cons.prems(2) by (simp add: distinct_update)
  have s: "set ?acc = (if min_size \<le> sz then insert (log, sz) (set acc) else set acc)"
    using same by (simp add: set_update_same)
  have inv: "\<forall>(k, v) \<in> set ?acc. size_of (os_path_join log_dir k) = Inr v"
    using Cons.prems(3) sz s by (auto split: if_splits)
  have split: "{(l, z). l \<in> set (log # logs)
                  \<and> size_of (os_path_join log_dir l) = Inr z \<and> min_size \<le> z}
      = (if min_size \<le> sz then {(log, sz)} else {})
        \<union> {(l, z). l \<in> set logs \<and> size_of (os_path_join log_dir l) = Inr z \<and> min_size \<le> z}"
    using sz by auto
  from Cons.IH [OF run d inv] have "distinct (map fst res)"
    and "set res = set ?acc \<union> {(l, z). l \<in> set logs
            \<and> size_of (os_path_join log_dir l) = Inr z \<and> min_size \<le> z}"
    by blast+
  then show ?case unfolding split s by (simp add: Un_assoc)
qed

lemma py_dict_distinct_aux:
  "distinct (map fst (acc @ items)) \<Longrightarrow>
   foldl (\<lambda>d (k, v). AList.update k v d) acc items = acc @ items"
proof (induction items arbitrary: acc)
  case Nil
  then show ?case by simp
next
  case (Cons kv items)
  obtain k v where kv: "kv = (k, v)" by (cases kv)
  have "k \<notin> fst ` set acc" using Cons.prems kv by auto
  then have u: "AList.update k v acc = acc @ [(k, v)]" by (rule update_absent)
  have "distinct (map fst ((acc @ [(k, v)]) @ items))" using Cons.prems kv by simp
  from Cons.IH [OF this] u kv show ?case by simp
qed

lemma py_dict_distinct: "distinct (map fst items) \<Longrightarrow> py_dict items = items"
  using py_dict_distinct_aux [of "[]" items] by (simp add: py_dict_def)

lemma sorted_by_size_desc_props:
  "set (sorted_by_size_desc items) = set items"
  "distinct (map fst items) \<Longrightarrow> distinct (map fst (sorted_by_size_desc items))"
  "sorted (rev (map snd (sorted_by_size_desc items)))"
  by (simp_all add: sorted_by_size_desc_def distinct_map rev_map)

lemma log_blacklist_Some:
  "log_blacklist rm (Some bl) logs = Inr logs1 \<Longrightarrow>
   logs1 = filter (\<lambda>x. blacklisted rm bl x = Inr False) logs"
  by (auto simp: log_blacklist_def py_not_True dest: py_filter_Inr)

text \<open>
  With a list as blacklist the log lister returns, when it returns, the mapping of exactly
  the files that are not blacklisted and not under \<open>min_size\<close>, each once, largest first.
\<close>

lemma roslog_list_with_blacklist:
  assumes "roslog_list rm env min_size (Some bl) = Inr r"
  shows "\<exists>d logs. get_log_dir env = Inr d \<and> listdir env (d @ ''/'') = Inr logs
         \<and> set (logs_with_size_in_bytes r)
             = {(log, sz). log \<in> set logs \<and> blacklisted rm bl log = Inr False
                  \<and> getsize env (os_path_join (d @ ''/'') log) = Inr sz \<and> min_size \<le> sz}
         \<and> distinct (map fst (logs_with_size_in_bytes r))
         \<and> sorted (rev (map snd (logs_with_size_in_bytes r)))"
proof -
  from assms obtain d where d: "get_log_dir env = Inr d"
    by (cases "get_log_dir env") (auto simp: roslog_list_def)
  from assms d obtain logs where logs: "listdir env (d @ ''/'') = Inr logs"
    by (cases "listdir env (d @ ''/'')") (auto simp: roslog_list_def)
  from assms d logs obtain logs1 where bl: "log_blacklist rm (Some bl) logs = Inr logs1"
    by (cases "log_blacklist rm (Some bl) logs") (auto simp: roslog_list_def)
  have logs1: "logs1 = filter (\<lambda>x. blacklisted rm bl x = Inr False) logs"
    using bl by (rule log_blacklist_Some)
  from assms d logs bl obtain log_sizes where
    loop: "log_sizes_loop (getsize env) (d @ ''/'') min_size logs1 [] = Inr log_sizes"
    and r: "logs_with_size_in_bytes r = py_dict (sorted_by_size_desc log_sizes)"
    by (cases "log_sizes_loop (getsize env) (d @ ''/'') min_size logs1 []")
       (auto simp: roslog_list_def)
  from log_sizes_loop_result [OF loop]
  have ls: "distinct (map fst log_sizes)"
    "set log_sizes = {(log, sz). log \<in> set logs1
        \<and> getsize env (os_path_join (d @ ''/'') log) = Inr sz \<and> min_size \<le> sz}"
    by auto
  have "py_dict (sorted_by_size_desc log_sizes) = sorted_by_size_desc log_sizes"
    using ls(1) by (simp add: py_dict_distinct sorted_by_size_desc_props)
  with r have r': "logs_with_size_in_bytes r = sorted_by_size_desc log_sizes" by simp
  show ?thesis
    using d logs ls unfolding r' logs1
    by (auto simp: sorted_by_size_desc_props)
qed

text \<open>
  Claim C8 at the default blacklist. A log directory with a file of 1024 bytes and one of
  4096 bytes, \<open>min_size = 2048\<close> and no blacklist given (\<open>None\<close>, the default of the
  parameter): the tool raises the \<open>TypeError\<close> of iterating \<open>None\<close> and returns no
  mapping. With the empty list as blacklist the mapping holds the 4096-byte file only.
\<close>

theorem roslog_list_default_blacklist_raises:
  "roslog_list lit_regex
     \<lparr> get_log_dir = Inr ''/root/.ros/log'',
       listdir = (\<lambda>d. Inr [''small.log'', ''big.log'']),
       getsize = (\<lambda>p. if p = ''/root/.ros/log/small.log'' then Inr 1024 else Inr 4096) \<rparr>
     2048 None
     = Inl none_not_iterable
   \<and> logs_with_size_in_bytes (projr (roslog_list lit_regex
     \<lparr> get_log_dir = Inr ''/root/.ros/log'',
       listdir = (\<lambda>d. Inr [''small.log'', ''big.log'']),
       getsize = (\<lambda>p. if p = ''/root/.ros/log/small.log'' then Inr 1024 else Inr 4096) \<rparr>
     2048 (Some [])))
     = [(''big.log'', 4096)]"
  by (simp add: roslog_list_def log_blacklist_def blacklisted_def os_path_join_def
      startswith_def endswith_def sorted_by_size_desc_def py_dict_def suffix_def)

end
